theory Spec2Isabelle
  imports Main
begin

chapter \<open>The recipe generation core of the SaltyBytes API\<close>

text \<open>
  The theory embeds the Go code that generates a recipe: the retrying client of the text and
  image provider (\<open>internal/openai/openai.go\<close>), the normalisation and association of tags,
  and the orchestrator \<open>FinishGenerateRecipeWithChat\<close> of the recipe service with its two
  goroutines, its deadline and its roll-back. The definitions come first, each beside the
  source it is taken from; then the supporting facts; then the results, one per claim.
\<close>

section \<open>Strings and errors\<close>

text \<open>
  A tag is a Go string read as the sequence of runes (Unicode code points) that ranging over it
  yields; the functions of package \<open>strings\<close> used on tags (\<open>ToLower\<close>, \<open>ReplaceAll\<close>,
  \<open>TrimPrefix\<close>) act rune by rune on the patterns the code passes to them. The other strings
  (messages, titles, prompts, URLs) are only copied, joined and compared, and are kept as
  character lists. An error value is its message: every error of the code is built by
  \<open>errors.New\<close> or \<open>fmt.Errorf\<close>, so the message is all a caller can tell one error from
  another by.
\<close>

type_synonym rune = nat

definition runes :: "string \<Rightarrow> rune list" where
  "runes s = map of_char s"

definition space :: rune where
  "space = 32"

definition hash :: rune where
  "hash = 35"

definition isUpperASCII :: "rune \<Rightarrow> bool" where
  "isUpperASCII r = (65 \<le> r \<and> r \<le> 90)"

text \<open>
  \<open>unicode.ToLower\<close>: on ASCII the letters \<open>A\<close> to \<open>Z\<close> move to \<open>a\<close> to \<open>z\<close> and every
  other rune stays; beyond ASCII the result comes from the Unicode case tables of the Go
  library, which are taken as the parameter \<open>tbl\<close>.
\<close>

definition toLowerRune :: "(rune \<Rightarrow> rune) \<Rightarrow> rune \<Rightarrow> rune" where
  "toLowerRune tbl r =
     (if r < 128 then (if isUpperASCII r then r + 32 else r) else tbl r)"

definition ToLower :: "(rune \<Rightarrow> rune) \<Rightarrow> rune list \<Rightarrow> rune list" where
  "ToLower tbl s = map (toLowerRune tbl) s"

text \<open>\<open>strings.ReplaceAll s old new\<close> for a pattern \<open>old\<close> of one rune.\<close>

definition ReplaceAll :: "rune list \<Rightarrow> rune \<Rightarrow> rune list \<Rightarrow> rune list" where
  "ReplaceAll s old new = concat (map (\<lambda>r. if r = old then new else [r]) s)"

definition TrimPrefix :: "rune list \<Rightarrow> rune list \<Rightarrow> rune list" where
  "TrimPrefix s prefix =
     (if take (length prefix) s = prefix then drop (length prefix) s else s)"

section \<open>Tag normalisation\<close>

text \<open>
  \<^verbatim>\<open>
  func cleanHashtag(hashtag string) string {
      hashtag = strings.ToLower(hashtag)
      hashtag = strings.ReplaceAll(hashtag, " ", "")
      hashtag = strings.TrimPrefix(hashtag, "#")
      return hashtag
  }
  \<close>
  The same function stands in both versions of the recipe service.
\<close>

definition cleanHashtag :: "(rune \<Rightarrow> rune) \<Rightarrow> rune list \<Rightarrow> rune list" where
  "cleanHashtag tbl hashtag =
     (let hashtag1 = ToLower tbl hashtag;
          hashtag2 = ReplaceAll hashtag1 space [];
          hashtag3 = TrimPrefix hashtag2 [hash]
      in hashtag3)"

text \<open>
  The normal form in the words of the specification: lowercase every rune, drop the spaces,
  then drop one leading \<open>#\<close> when there is one.
\<close>

fun stripLeadingHash :: "rune list \<Rightarrow> rune list" where
  "stripLeadingHash [] = []"
| "stripLeadingHash (r # rs) = (if r = hash then rs else r # rs)"

definition normalizedTag :: "(rune \<Rightarrow> rune) \<Rightarrow> rune list \<Rightarrow> rune list" where
  "normalizedTag tbl raw =
     stripLeadingHash (filter (\<lambda>r. r \<noteq> space) (map (toLowerRune tbl) raw))"

section \<open>The generation client\<close>

text \<open>
  A \<open>time.Duration\<close> is a number of nanoseconds.
\<close>

type_synonym duration = int

definition Second :: duration where
  "Second = 1000000000"

definition Minute :: duration where
  "Minute = 60 * Second"

text \<open>
  An error returned by the provider's library is either an \<open>*openai.APIError\<close>, which carries
  the HTTP status code, or anything else. Both carry the text that \<open>%v\<close> prints.
\<close>

datatype providerError = APIError (HTTPStatusCode: int) string | OtherError string

fun errorText :: "providerError \<Rightarrow> string" where
  "errorText (APIError code msg) = msg"
| "errorText (OtherError msg) = msg"

text \<open>
  \<^verbatim>\<open>
  func handleAPIError(respErr error) (shouldRetry bool, waitTime time.Duration, err error) {
      e := &openai.APIError{}
      if errors.As(respErr, &e) {
          switch e.HTTPStatusCode {
          case 401: return false, 0, errors.New("invalid auth or key. Do not retry")
          case 429: return true, 2 * time.Second, errors.New("rate limiting or engine overload. Will retry")
          case 500: return true, 2 * time.Second, errors.New("openAI server error. Will retry")
          default:  return false, 0, fmt.Errorf("unhandled error: %v", respErr)
          }
      }
      return false, 0, fmt.Errorf("unhandled error: %v", respErr)
  }
  \<close>
\<close>

definition handleAPIError :: "providerError \<Rightarrow> bool \<times> duration \<times> string" where
  "handleAPIError respErr =
     (case respErr of
        APIError code msg \<Rightarrow>
          (if code = 401 then (False, 0, ''invalid auth or key. Do not retry'')
           else if code = 429 then (True, 2 * Second, ''rate limiting or engine overload. Will retry'')
           else if code = 500 then (True, 2 * Second, ''openAI server error. Will retry'')
           else (False, 0, ''unhandled error: '' @ errorText respErr))
      | OtherError msg \<Rightarrow> (False, 0, ''unhandled error: '' @ errorText respErr))"

text \<open>
  The provider is the sequence of its answers: \<open>call i\<close> is what the \<open>i\<close>-th request of one
  client call gets back (counting from 0), a response or an error.
\<close>

datatype 'r response = Success 'r | Failure providerError

text \<open>
  The retry loop of \<open>CreateRecipeChatCompletion\<close> and of \<open>CreateImage\<close> (the two loops differ
  in the request only):
  \<^verbatim>\<open>
  maxRetries := 5
  for i := 0; i < maxRetries; i++ {
      resp, err = c.Client.CreateChatCompletion(...)
      if err == nil { break }
      shouldRetry, waitTime, noRetryErr := handleAPIError(err)
      if !shouldRetry { return nil, noRetryErr }
      time.Sleep(waitTime)
  }
  \<close>
  The loop either returns from the function (\<open>Return\<close>) or ends with the last values of
  \<open>resp\<close> and \<open>err\<close> (\<open>After\<close>; \<open>None\<close> stands for their zero values, before any request).
  With the exit come the number of requests made and the durations slept, in order.
\<close>

datatype 'r loopExit = Return string | After "'r response option"

definition maxRetries :: nat where
  "maxRetries = 5"

function retryLoop ::
  "(nat \<Rightarrow> 'r response) \<Rightarrow> nat \<Rightarrow> duration list \<Rightarrow> 'r response option
     \<Rightarrow> 'r loopExit \<times> nat \<times> duration list" where
  "retryLoop call i slept prev =
     (if i < maxRetries then
        (case call i of
           Success resp \<Rightarrow> (After (Some (Success resp)), Suc i, slept)
         | Failure err \<Rightarrow>
             (case handleAPIError err of
                (shouldRetry, waitTime, noRetryErr) \<Rightarrow>
                  if \<not> shouldRetry then (Return noRetryErr, Suc i, slept)
                  else retryLoop call (Suc i) (slept @ [waitTime]) (Some (Failure err))))
      else (After prev, i, slept))"
  by pat_completeness auto
termination
  by (relation "measure (\<lambda>(call, i, slept, prev). maxRetries - i)") auto

declare retryLoop.simps [simp del]

text \<open>
  What a client call gives back: a value, an error, or a panic of the Go runtime. With it the
  model keeps the number of requests made and the sleeps.
\<close>

datatype 'a outcome = Value 'a | Error string | Panic

record 'a clientResult =
  result :: "'a outcome"
  attempts :: nat
  sleeps :: "duration list"

text \<open>
  A chat response is its list \<open>Choices\<close>; of a choice the code reads
  \<open>Message.FunctionCall.Arguments\<close>. In the provider's library \<open>Message.FunctionCall\<close> is a
  pointer, so it can be \<open>nil\<close> (\<open>None\<close>) and reading \<open>Arguments\<close> through it panics.
  \<^verbatim>\<open>
  if err != nil {
      return nil, fmt.Errorf("exhausted maximum retries. Exiting. ChatCompletion error: %v", err)
  }
  if len(resp.Choices) == 0 || resp.Choices[0].Message.FunctionCall.Arguments == "" {
      return nil, errors.New("OpenAI API returned an empty message")
  }
  var recipe models.FullRecipe
  err = json.Unmarshal([]byte(resp.Choices[0].Message.FunctionCall.Arguments), &recipe)
  if err != nil { return nil, fmt.Errorf("failed to unmarshal recipe: %v", err) }
  return &recipe, nil
  \<close>
  \<open>json.Unmarshal\<close> into the recipe type is the parameter \<open>unmarshal\<close>.
\<close>

datatype choice = Choice (FunctionCall: "string option")

definition afterChat :: "(string \<Rightarrow> string + 'a) \<Rightarrow> choice list \<Rightarrow> 'a outcome" where
  "afterChat unmarshal Choices =
     (case Choices of
        [] \<Rightarrow> Error ''OpenAI API returned an empty message''
      | c # _ \<Rightarrow>
          (case FunctionCall c of
             None \<Rightarrow> Panic
           | Some Arguments \<Rightarrow>
               if Arguments = [] then Error ''OpenAI API returned an empty message''
               else (case unmarshal Arguments of
                       Inl err \<Rightarrow> Error (''failed to unmarshal recipe: '' @ err)
                     | Inr recipe \<Rightarrow> Value recipe)))"

definition CreateRecipeChatCompletion ::
  "(string \<Rightarrow> string + 'a) \<Rightarrow> (nat \<Rightarrow> choice list response) \<Rightarrow> 'a clientResult" where
  "CreateRecipeChatCompletion unmarshal call =
     (case retryLoop call 0 [] None of
        (Return noRetryErr, n, slept) \<Rightarrow>
          \<lparr>result = Error noRetryErr, attempts = n, sleeps = slept\<rparr>
      | (After (Some (Failure err)), n, slept) \<Rightarrow>
          \<lparr>result = Error (''exhausted maximum retries. Exiting. ChatCompletion error: '' @ errorText err),
           attempts = n, sleeps = slept\<rparr>
      | (After (Some (Success resp)), n, slept) \<Rightarrow>
          \<lparr>result = afterChat unmarshal resp, attempts = n, sleeps = slept\<rparr>
      | (After None, n, slept) \<Rightarrow>
          \<lparr>result = afterChat unmarshal [], attempts = n, sleeps = slept\<rparr>)"

text \<open>
  An image response is its list \<open>Data\<close> of base64 strings (\<open>B64JSON\<close>);
  \<open>base64.StdEncoding.DecodeString\<close> is the parameter \<open>decodeString\<close>.
  \<^verbatim>\<open>
  if err != nil {
      return nil, fmt.Errorf("exhausted maximum retries. Exiting. CreateImage error: %v", err)
  }
  if len(respBase64.Data) == 0 || respBase64.Data[0].B64JSON == "" {
      return nil, errors.New("OpenAI API returned an empty image")
  }
  imgBytes, err := base64.StdEncoding.DecodeString(respBase64.Data[0].B64JSON)
  if err != nil { return nil, fmt.Errorf("Base64 decode error: %v", err) }
  return imgBytes, nil
  \<close>
\<close>

definition afterImage :: "(string \<Rightarrow> string + 'b) \<Rightarrow> string list \<Rightarrow> 'b outcome" where
  "afterImage decodeString Data =
     (case Data of
        [] \<Rightarrow> Error ''OpenAI API returned an empty image''
      | B64JSON # _ \<Rightarrow>
          if B64JSON = [] then Error ''OpenAI API returned an empty image''
          else (case decodeString B64JSON of
                  Inl err \<Rightarrow> Error (''Base64 decode error: '' @ err)
                | Inr imgBytes \<Rightarrow> Value imgBytes))"

definition CreateImage ::
  "(string \<Rightarrow> string + 'b) \<Rightarrow> (nat \<Rightarrow> string list response) \<Rightarrow> 'b clientResult" where
  "CreateImage decodeString call =
     (case retryLoop call 0 [] None of
        (Return noRetryErr, n, slept) \<Rightarrow>
          \<lparr>result = Error noRetryErr, attempts = n, sleeps = slept\<rparr>
      | (After (Some (Failure err)), n, slept) \<Rightarrow>
          \<lparr>result = Error (''exhausted maximum retries. Exiting. CreateImage error: '' @ errorText err),
           attempts = n, sleeps = slept\<rparr>
      | (After (Some (Success resp)), n, slept) \<Rightarrow>
          \<lparr>result = afterImage decodeString resp, attempts = n, sleeps = slept\<rparr>
      | (After None, n, slept) \<Rightarrow>
          \<lparr>result = afterImage decodeString [], attempts = n, sleeps = slept\<rparr>)"

subsection \<open>Classes of provider answers\<close>

text \<open>
  The classes the retry policy is stated with: a transient answer is an API error with status
  429 or 500; an unrecognised error is any error that is neither transient nor status 401; an
  empty response is a success without a first choice (or image) or with an empty payload in it.
\<close>

definition isTransient :: "'r response \<Rightarrow> bool" where
  "isTransient r =
     (case r of Failure (APIError code msg) \<Rightarrow> code = 429 \<or> code = 500 | _ \<Rightarrow> False)"

definition transientUpTo :: "(nat \<Rightarrow> 'r response) \<Rightarrow> nat \<Rightarrow> bool" where
  "transientUpTo call k = list_all (\<lambda>i. isTransient (call i)) [0..<k]"

definition isUnrecognized :: "providerError \<Rightarrow> bool" where
  "isUnrecognized e =
     (case e of
        APIError code msg \<Rightarrow> code \<noteq> 401 \<and> code \<noteq> 429 \<and> code \<noteq> 500
      | OtherError msg \<Rightarrow> True)"

definition emptyChat :: "choice list \<Rightarrow> bool" where
  "emptyChat Choices = (case Choices of [] \<Rightarrow> True | c # _ \<Rightarrow> FunctionCall c = Some [])"

definition emptyImage :: "string list \<Rightarrow> bool" where
  "emptyImage Data = (case Data of [] \<Rightarrow> True | B64JSON # _ \<Rightarrow> B64JSON = [])"

section \<open>The stores\<close>

text \<open>
  The repository layer (\<open>s.Repo\<close>) and the image store (package \<open>s3\<close>) stand behind the
  service; the service calls them and reads their error results. The state they keep is a
  record: the recipe rows, the tag rows in the order of their creation, the tags associated
  with each recipe, the stored images by key, and beside them the log of the process. Every
  call to a store can fail for reasons of its own (connection, constraint, time-out): \<open>ops\<close>
  counts the store calls made so far, and a fault plan \<open>faults\<close> says for the \<open>n\<close>-th call
  whether it fails and with which message.
\<close>

type_synonym bytes = "nat list"

type_synonym historyEntry = string

record Tag =
  TagID :: nat
  Hashtag :: "rune list"

record RecipeRow =
  rowTitle :: string
  rowIngredients :: "string list"
  rowInstructions :: "string list"
  rowCookTime :: int
  rowLinkSuggestions :: "string list"
  rowImagePrompt :: string
  rowHistory :: "historyEntry list"
  rowImageURL :: "string option"

record world =
  recipes :: "nat \<rightharpoonup> RecipeRow"
  tags :: "Tag list"
  recipeTags :: "nat \<rightharpoonup> Tag list"
  images :: "nat \<rightharpoonup> bytes"
  logs :: "string list"
  ops :: nat

type_synonym faults = "nat \<Rightarrow> string option"

definition tick :: "world \<Rightarrow> world" where
  "tick w = w\<lparr>ops := ops w + 1\<rparr>"

text \<open>\<open>log.Println(v)\<close> and \<open>log.Printf(format, v)\<close> append one line to the log.\<close>

definition Println :: "string \<Rightarrow> world \<Rightarrow> world" where
  "Println line w = w\<lparr>logs := logs w @ [line]\<rparr>"

text \<open>The decimal digits of a number, as \<open>%d\<close> prints them.\<close>

fun showNat :: "nat \<Rightarrow> string" where
  "showNat n =
     (if n < 10 then [char_of (48 + n)]
      else showNat (n div 10) @ [char_of (48 + n mod 10)])"

declare showNat.simps [simp del]

subsection \<open>The recipe as the service holds it\<close>

text \<open>
  The declaration of \<open>models.Recipe\<close> is not among the sources; the record has the fields
  that the service reads and writes. A Go slice is \<open>nil\<close> (\<open>None\<close>) or a sequence
  (\<open>Some xs\<close>, which can be empty); \<open>append\<close> of no elements gives its first argument back,
  and of some elements a slice that is not \<open>nil\<close>. \<open>History\<close> is a pointer to a struct that
  holds the slice \<open>Entries\<close>.
\<close>

definition elems :: "'a list option \<Rightarrow> 'a list" where
  "elems s = (case s of None \<Rightarrow> [] | Some xs \<Rightarrow> xs)"

definition goAppend :: "'a list option \<Rightarrow> 'a list option \<Rightarrow> 'a list option" where
  "goAppend s extra = (if elems extra = [] then s else Some (elems s @ elems extra))"

record Recipe =
  ID :: nat
  Title :: string
  Ingredients :: "string list option"
  Instructions :: "string list option"
  CookTime :: int
  LinkSuggestions :: "string list option"
  ImagePrompt :: string
  History :: "historyEntry list option option"
  ImageURL :: string

subsection \<open>The draft store\<close>

text \<open>
  Modelled from the spec: \<open>Repo.UpdateRecipeDef\<close> is not among the sources. The draft store's
  \<open>updateRecipeDef(recipe, newHistoryEntry) -> error\<close> persists the updated recipe and appends
  the new entry to its history log, which is append-only. The store has a call of its own to
  create a record (\<open>createRecipe(draft) -> id\<close>), and the identity of a recipe is assigned at
  creation: an update makes no record, so for a record that is not there it changes nothing
  and reports an error. The image URL has an update of its own and is left as it is.
\<close>

definition UpdateRecipeDef ::
  "faults \<Rightarrow> Recipe \<Rightarrow> historyEntry \<Rightarrow> world \<Rightarrow> string option \<times> world" where
  "UpdateRecipeDef f recipe newEntry w =
     (case f (ops w) of
        Some err \<Rightarrow> (Some err, tick w)
      | None \<Rightarrow>
          (case recipes w (ID recipe) of
             None \<Rightarrow> (Some ''record not found'', tick w)
           | Some row \<Rightarrow>
               (None, tick (w\<lparr>recipes := (recipes w)(ID recipe \<mapsto>
                  row\<lparr>rowTitle := Title recipe,
                      rowIngredients := elems (Ingredients recipe),
                      rowInstructions := elems (Instructions recipe),
                      rowCookTime := CookTime recipe,
                      rowLinkSuggestions := elems (LinkSuggestions recipe),
                      rowImagePrompt := ImagePrompt recipe,
                      rowHistory := rowHistory row @ [newEntry]\<rparr>)\<rparr>))))"

text \<open>
  Modelled from the spec: \<open>Repo.UpdateRecipeImageURL\<close> is not among the sources. The draft
  store's \<open>updateRecipeImageURL(id, url) -> error\<close> persists the URL onto the recipe.
\<close>

definition UpdateRecipeImageURL ::
  "faults \<Rightarrow> nat \<Rightarrow> string \<Rightarrow> world \<Rightarrow> string option \<times> world" where
  "UpdateRecipeImageURL f recipeID url w =
     (case f (ops w) of
        Some err \<Rightarrow> (Some err, tick w)
      | None \<Rightarrow>
          (case recipes w recipeID of
             None \<Rightarrow> (Some ''record not found'', tick w)
           | Some row \<Rightarrow>
               (None, tick (w\<lparr>recipes := (recipes w)(recipeID \<mapsto> row\<lparr>rowImageURL := Some url\<rparr>)\<rparr>))))"

text \<open>
  Modelled from the spec: \<open>Repo.DeleteRecipe\<close> is not among the sources. After the draft
  store's \<open>deleteRecipe(id) -> error\<close> has succeeded the recipe record is absent from the store.
\<close>

definition Repo_DeleteRecipe :: "faults \<Rightarrow> nat \<Rightarrow> world \<Rightarrow> string option \<times> world" where
  "Repo_DeleteRecipe f recipeID w =
     (case f (ops w) of
        Some err \<Rightarrow> (Some err, tick w)
      | None \<Rightarrow> (None, tick (w\<lparr>recipes := (recipes w)(recipeID := None)\<rparr>)))"

text \<open>
  Modelled from the spec: \<open>Repo.FindTagByName\<close> is not among the sources. The draft store's
  \<open>findTagByName(name) -> Tag|NotFound\<close> looks a tag up by its normalised text; the service
  tells the not-found error (\<open>gorm.IsRecordNotFoundError\<close>) from any other.
\<close>

datatype found = Found Tag | RecordNotFound | LookupError string

definition FindTagByName :: "faults \<Rightarrow> rune list \<Rightarrow> world \<Rightarrow> found \<times> world" where
  "FindTagByName f name w =
     (case f (ops w) of
        Some err \<Rightarrow> (LookupError err, tick w)
      | None \<Rightarrow>
          (case find (\<lambda>t. Hashtag t = name) (tags w) of
             Some t \<Rightarrow> (Found t, tick w)
           | None \<Rightarrow> (RecordNotFound, tick w)))"

text \<open>
  Modelled from the spec: \<open>Repo.CreateTag\<close> is not among the sources. The draft store's
  \<open>createTag(tag) -> error\<close> adds a tag row; the store gives the row an identity that no other
  row has, which the caller reads back from the struct it passed.
\<close>

definition freshTagID :: "Tag list \<Rightarrow> nat" where
  "freshTagID ts = fold max (map TagID ts) 0 + 1"

definition CreateTag :: "faults \<Rightarrow> Tag \<Rightarrow> world \<Rightarrow> (string + Tag) \<times> world" where
  "CreateTag f newTag w =
     (case f (ops w) of
        Some err \<Rightarrow> (Inl err, tick w)
      | None \<Rightarrow>
          (let created = newTag\<lparr>TagID := freshTagID (tags w)\<rparr>
           in (Inr created, tick (w\<lparr>tags := tags w @ [created]\<rparr>))))"

text \<open>
  Modelled from the spec: \<open>Repo.UpdateRecipeTagsAssociation\<close> is not among the sources. The
  draft store's \<open>replaceRecipeTags(id, tags) -> error\<close> overwrites the tag associations of the
  recipe with the tags given: it replaces, it does not add.
\<close>

definition UpdateRecipeTagsAssociation ::
  "faults \<Rightarrow> nat \<Rightarrow> Tag list \<Rightarrow> world \<Rightarrow> string option \<times> world" where
  "UpdateRecipeTagsAssociation f recipeID associatedTags w =
     (case f (ops w) of
        Some err \<Rightarrow> (Some err, tick w)
      | None \<Rightarrow> (None, tick (w\<lparr>recipeTags := (recipeTags w)(recipeID \<mapsto> associatedTags)\<rparr>)))"

subsection \<open>The image store\<close>

text \<open>
  Modelled from the spec: package \<open>s3\<close> is not among the sources. The image store has
  \<open>uploadImage(bytes, key) -> url, error\<close> and \<open>deleteImage(key) -> error\<close>, and the key is a
  deterministic function of the recipe's identity; here the identity itself is the key, and
  \<open>urlOf\<close> is the URL the store gives for a key.
\<close>

definition GenerateS3Key :: "nat \<Rightarrow> nat" where
  "GenerateS3Key recipeID = recipeID"

definition UploadRecipeImageToS3 ::
  "faults \<Rightarrow> (nat \<Rightarrow> string) \<Rightarrow> bytes \<Rightarrow> nat \<Rightarrow> world \<Rightarrow> (string + string) \<times> world" where
  "UploadRecipeImageToS3 f urlOf imageBytes s3Key w =
     (case f (ops w) of
        Some err \<Rightarrow> (Inl err, tick w)
      | None \<Rightarrow> (Inr (urlOf s3Key), tick (w\<lparr>images := (images w)(s3Key \<mapsto> imageBytes)\<rparr>)))"

definition DeleteRecipeImageFromS3 :: "faults \<Rightarrow> nat \<Rightarrow> world \<Rightarrow> string option \<times> world" where
  "DeleteRecipeImageFromS3 f s3Key w =
     (case f (ops w) of
        Some err \<Rightarrow> (Some err, tick w)
      | None \<Rightarrow> (None, tick (w\<lparr>images := (images w)(s3Key := None)\<rparr>)))"

section \<open>The tag associator\<close>

text \<open>
  \<^verbatim>\<open>
  func (s *RecipeService) AssociateTagsWithRecipe(recipe *models.Recipe, tags []string) error {
      var associatedTags []models.Tag
      for _, hashtag := range tags {
          cleanedHashtag := cleanHashtag(hashtag)
          existingTag, err := s.Repo.FindTagByName(cleanedHashtag)
          if err == nil {
              associatedTags = append(associatedTags, *existingTag)
          } else if gorm.IsRecordNotFoundError(err) {
              newTag := models.Tag{Hashtag: cleanedHashtag}
              if err := s.Repo.CreateTag(&newTag); err != nil {
                  return fmt.Errorf("failed to create new tag: %v", err)
              }
              associatedTags = append(associatedTags, newTag)
          } else {
              return fmt.Errorf("database error while searching for tag: %v", err)
          }
      }
      if err := s.Repo.UpdateRecipeTagsAssociation(recipe.ID, associatedTags); err != nil {
          return fmt.Errorf("failed to update recipe with tags: %v", err)
      }
      return nil
  }
  \<close>
  \<open>tagLoop\<close> is the \<open>for\<close> loop: it returns from the function with an error (\<open>Inl\<close>) or ends
  with the tags resolved so far.
\<close>

fun tagLoop ::
  "faults \<Rightarrow> (rune \<Rightarrow> rune) \<Rightarrow> rune list list \<Rightarrow> Tag list \<Rightarrow> world
     \<Rightarrow> (string + Tag list) \<times> world" where
  "tagLoop f tbl [] associatedTags w = (Inr associatedTags, w)"
| "tagLoop f tbl (hashtag # rest) associatedTags w =
     (let cleanedHashtag = cleanHashtag tbl hashtag in
      case FindTagByName f cleanedHashtag w of
        (Found existingTag, w1) \<Rightarrow> tagLoop f tbl rest (associatedTags @ [existingTag]) w1
      | (RecordNotFound, w1) \<Rightarrow>
          (case CreateTag f \<lparr>TagID = 0, Hashtag = cleanedHashtag\<rparr> w1 of
             (Inl err, w2) \<Rightarrow> (Inl (''failed to create new tag: '' @ err), w2)
           | (Inr newTag, w2) \<Rightarrow> tagLoop f tbl rest (associatedTags @ [newTag]) w2)
      | (LookupError err, w1) \<Rightarrow>
          (Inl (''database error while searching for tag: '' @ err), w1))"

definition AssociateTagsWithRecipe ::
  "faults \<Rightarrow> (rune \<Rightarrow> rune) \<Rightarrow> Recipe \<Rightarrow> rune list list \<Rightarrow> world \<Rightarrow> string option \<times> world" where
  "AssociateTagsWithRecipe f tbl recipe hashtags w =
     (case tagLoop f tbl hashtags [] w of
        (Inl err, w1) \<Rightarrow> (Some err, w1)
      | (Inr associatedTags, w1) \<Rightarrow>
          (case UpdateRecipeTagsAssociation f (ID recipe) associatedTags w1 of
             (Some err, w2) \<Rightarrow> (Some (''failed to update recipe with tags: '' @ err), w2)
           | (None, w2) \<Rightarrow> (None, w2)))"

section \<open>The generation orchestrator\<close>

subsection \<open>What the recipe manager produces\<close>

text \<open>
  The recipe manager (package \<open>openai\<close>) calls the provider and keeps the result in its
  fields; the service reads \<open>RecipeDef\<close>, \<open>RecipeHistoryEntries\<close> and
  \<open>NextRecipeHistoryEntry\<close> after \<open>GenerateRecipeWithChat\<close>, and \<open>ImageBytes\<close> after
  \<open>GenerateRecipeImage\<close>.
\<close>

record RecipeDef =
  defTitle :: string
  defIngredients :: "string list option"
  defInstructions :: "string list option"
  defCookTime :: int
  defLinkedRecipeSuggestions :: "string list option"
  defImagePrompt :: string
  defHashtags :: "rune list list"

record RecipeManager =
  RecipeDef :: RecipeDef
  RecipeHistoryEntries :: "historyEntry list option"
  NextRecipeHistoryEntry :: historyEntry

subsection \<open>The surroundings of one run\<close>

text \<open>
  One run of the orchestrator is decided by what lies outside the service: the fault plan of
  the stores, the Unicode tables, the URLs of the image store, what the two calls of the recipe
  manager give (an error, or the populated manager and the image bytes), and the clock. Times
  are instants in nanoseconds. \<open>textReadyAt\<close> is the instant from which the text goroutine
  stands ready to send on \<open>recipeErrChan\<close>, \<open>imageReadyAt\<close> the same for the image goroutine
  and \<open>imageErrChan\<close>. \<open>tieText\<close> and \<open>tieImage\<close> say which case a \<open>select\<close> takes when
  both of its cases can proceed (Go chooses at random): \<open>True\<close> is the channel.
  \<open>progressAtDeadline\<close> says how far the text goroutine has got when the deadline fires
  during the first wait.
\<close>

datatype progress = BeforeUpdate | InTagLoop nat | AfterAssociate | ReadyToSend

record env =
  faultPlan :: faults
  unicodeLower :: "rune \<Rightarrow> rune"
  urlOf :: "nat \<Rightarrow> string"
  generated :: "string + RecipeManager"
  imageGenerated :: "string + bytes"
  entryTime :: duration
  textReadyAt :: duration
  imageReadyAt :: duration
  tieText :: bool
  tieImage :: bool
  progressAtDeadline :: progress

subsection \<open>The deadline and the two waits\<close>

text \<open>
  \<open>context.WithTimeout(parent, d)\<close> called at instant \<open>now\<close> gives a context whose \<open>Done\<close>
  channel is closed from the instant \<open>now + d\<close> on. A \<open>select\<close> over a receive and
  \<open>ctx.Done()\<close>, reached at instant \<open>now\<close>, runs at the first instant from \<open>now\<close> on at
  which one of the two can proceed, and takes that one; when both can, the tie decides. It
  gives the case taken and the instant.
\<close>

record Context =
  deadline :: duration

definition WithTimeout :: "duration \<Rightarrow> duration \<Rightarrow> Context" where
  "WithTimeout now d = \<lparr>deadline = now + d\<rparr>"

datatype selected = Received | DeadlineExceeded

definition select :: "Context \<Rightarrow> duration \<Rightarrow> duration \<Rightarrow> bool \<Rightarrow> selected \<times> duration" where
  "select ctx now readyAt tie =
     (let fire = max now (min readyAt (deadline ctx)) in
      if readyAt \<le> fire \<and> deadline ctx \<le> fire
      then (if tie then Received else DeadlineExceeded, fire)
      else if readyAt \<le> fire then (Received, fire)
      else (DeadlineExceeded, fire))"

text \<open>
  \<^verbatim>\<open>
  ctx, cancel := context.WithTimeout(context.Background(), 5*time.Minute)
  defer cancel()
  ...
  select { case err := <-recipeErrChan: ...  case <-ctx.Done(): ... }
  select { case err := <-imageErrChan: ...   case <-ctx.Done(): ... }
  \<close>
  The context is made once, on entry; the first \<open>select\<close> is reached on entry and the second
  when the first has run.
\<close>

definition runContext :: "env \<Rightarrow> Context" where
  "runContext env = WithTimeout (entryTime env) (5 * Minute)"

definition firstWait :: "env \<Rightarrow> selected \<times> duration" where
  "firstWait env = select (runContext env) (entryTime env) (textReadyAt env) (tieText env)"

definition secondWait :: "env \<Rightarrow> selected \<times> duration" where
  "secondWait env = select (runContext env) (snd (firstWait env)) (imageReadyAt env) (tieImage env)"

subsection \<open>Populating and validating the recipe\<close>

text \<open>
  \<^verbatim>\<open>
  func validateRecipeCoreFields(recipe *models.Recipe) error {
      if recipe.Title == "" || recipe.Ingredients == nil || recipe.Instructions == nil ||
          recipe.ImagePrompt == "" || recipe.History.Entries == nil {
          return errors.New("missing required fields in Recipe")
      }
      return nil
  }
  \<close>
  The last disjunct reads through the pointer \<open>recipe.History\<close>, and is reached only when the
  disjuncts before it are false.
\<close>

definition validateRecipeCoreFields :: "Recipe \<Rightarrow> unit outcome" where
  "validateRecipeCoreFields recipe =
     (if Title recipe = [] \<or> Ingredients recipe = None \<or> Instructions recipe = None
         \<or> ImagePrompt recipe = []
      then Error ''missing required fields in Recipe''
      else (case History recipe of
              None \<Rightarrow> Panic
            | Some Entries \<Rightarrow>
                if Entries = None then Error ''missing required fields in Recipe''
                else Value ()))"

text \<open>
  \<^verbatim>\<open>
  func populateRecipeCoreFields(recipe *models.Recipe, recipeManager *openai.RecipeManager) error {
      recipe.Title = recipeManager.RecipeDef.Title
      recipe.Ingredients = recipeManager.RecipeDef.Ingredients
      recipe.Instructions = recipeManager.RecipeDef.Instructions
      recipe.CookTime = recipeManager.RecipeDef.CookTime
      recipe.LinkSuggestions = recipeManager.RecipeDef.LinkedRecipeSuggestions
      recipe.ImagePrompt = recipeManager.RecipeDef.ImagePrompt
      if recipe.History == nil {
          return errors.New("recipe history is nil")
      }
      recipe.History.Entries = append(recipe.History.Entries, recipeManager.RecipeHistoryEntries...)
      return validateRecipeCoreFields(recipe)
  }
  \<close>
  The recipe is changed in place; the model gives the changed recipe back with the result.
\<close>

definition populateRecipeCoreFields :: "Recipe \<Rightarrow> RecipeManager \<Rightarrow> unit outcome \<times> Recipe" where
  "populateRecipeCoreFields recipe recipeManager =
     (let recipe1 = recipe\<lparr>Title := defTitle (RecipeDef recipeManager),
                            Ingredients := defIngredients (RecipeDef recipeManager),
                            Instructions := defInstructions (RecipeDef recipeManager),
                            CookTime := defCookTime (RecipeDef recipeManager),
                            LinkSuggestions := defLinkedRecipeSuggestions (RecipeDef recipeManager),
                            ImagePrompt := defImagePrompt (RecipeDef recipeManager)\<rparr>
      in case History recipe1 of
           None \<Rightarrow> (Error ''recipe history is nil'', recipe1)
         | Some Entries \<Rightarrow>
             (let recipe2 = recipe1\<lparr>History :=
                    Some (goAppend Entries (RecipeHistoryEntries recipeManager))\<rparr>
              in (validateRecipeCoreFields recipe2, recipe2)))"

subsection \<open>Deleting a recipe and uploading its image\<close>

text \<open>
  \<^verbatim>\<open>
  func (s *RecipeService) DeleteRecipe(recipeID uint) error {
      if err := s.Repo.DeleteRecipe(recipeID); err != nil {
          return fmt.Errorf("failed to delete recipe: %w", err)
      }
      s3Key := s3.GenerateS3Key(recipeID)
      if err := s3.DeleteRecipeImageFromS3(s.Cfg, s3Key); err != nil {
          return fmt.Errorf("failed to delete recipe image from S3: %w", err)
      }
      return nil
  }
  \<close>
\<close>

definition DeleteRecipe :: "faults \<Rightarrow> nat \<Rightarrow> world \<Rightarrow> string option \<times> world" where
  "DeleteRecipe f recipeID w =
     (case Repo_DeleteRecipe f recipeID w of
        (Some err, w1) \<Rightarrow> (Some (''failed to delete recipe: '' @ err), w1)
      | (None, w1) \<Rightarrow>
          (let s3Key = GenerateS3Key recipeID in
           case DeleteRecipeImageFromS3 f s3Key w1 of
             (Some err, w2) \<Rightarrow> (Some (''failed to delete recipe image from S3: '' @ err), w2)
           | (None, w2) \<Rightarrow> (None, w2)))"

text \<open>
  \<^verbatim>\<open>
  func uploadRecipeImage(recipeId uint, recipeManager *openai.RecipeManager, cfg *config.Config) (string, error) {
      s3Key := s3.GenerateS3Key(recipeId)
      imageURL, err := s3.UploadRecipeImageToS3(cfg, recipeManager.ImageBytes, s3Key)
      if err != nil {
          return "", errors.New("failed to upload image to S3: " + err.Error())
      }
      return imageURL, nil
  }
  \<close>
\<close>

definition uploadRecipeImage ::
  "faults \<Rightarrow> (nat \<Rightarrow> string) \<Rightarrow> nat \<Rightarrow> bytes \<Rightarrow> world \<Rightarrow> (string + string) \<times> world" where
  "uploadRecipeImage f urls recipeId ImageBytes w =
     (let s3Key = GenerateS3Key recipeId in
      case UploadRecipeImageToS3 f urls ImageBytes s3Key w of
        (Inl err, w1) \<Rightarrow> (Inl (''failed to upload image to S3: '' @ err), w1)
      | (Inr imageURL, w1) \<Rightarrow> (Inr imageURL, w1))"

subsection \<open>The text goroutine\<close>

text \<open>
  \<^verbatim>\<open>
  go func(ctx context.Context, recipeErrChan chan<- error, imageErrChan chan<- error) {
      if err := recipeManager.GenerateRecipeWithChat(); err != nil {
          recipeErrChan <- err
          return
      }
      go func(ctx context.Context, imageErrChan chan<- error) { ... }(ctx, imageErrChan)
      if err := populateRecipeCoreFields(recipe, recipeManager); err != nil {
          recipeErrChan <- err
          return
      }
      if err := s.Repo.UpdateRecipeDef(recipe, recipeManager.NextRecipeHistoryEntry); err != nil {
          recipeErrChan <- err
          return
      }
      if err := s.AssociateTagsWithRecipe(recipe, recipeManager.RecipeDef.Hashtags); err != nil {
          log.Println(err)
      }
      recipeErrChan <- nil
  }(ctx, recipeErrChan, imageErrChan)
  \<close>
  Run to its end, the goroutine stands ready to send a value on \<open>recipeErrChan\<close> (\<open>Signal\<close>:
  an error, or \<open>None\<close> for \<open>nil\<close>), or it has panicked (\<open>Crash\<close>); with that comes the
  state of the stores and the log it leaves.
\<close>

datatype sent = Signal "string option" | Crash

definition textStage :: "env \<Rightarrow> Recipe \<Rightarrow> world \<Rightarrow> sent \<times> world" where
  "textStage env recipe w =
     (case generated env of
        Inl err \<Rightarrow> (Signal (Some err), w)
      | Inr recipeManager \<Rightarrow>
          (case populateRecipeCoreFields recipe recipeManager of
             (Panic, recipe1) \<Rightarrow> (Crash, w)
           | (Error err, recipe1) \<Rightarrow> (Signal (Some err), w)
           | (Value u, recipe1) \<Rightarrow>
               (case UpdateRecipeDef (faultPlan env) recipe1
                       (NextRecipeHistoryEntry recipeManager) w of
                  (Some err, w1) \<Rightarrow> (Signal (Some err), w1)
                | (None, w1) \<Rightarrow>
                    (case AssociateTagsWithRecipe (faultPlan env) (unicodeLower env) recipe1
                            (defHashtags (RecipeDef recipeManager)) w1 of
                       (Some err, w2) \<Rightarrow> (Signal None, Println err w2)
                     | (None, w2) \<Rightarrow> (Signal None, w2)))))"

text \<open>
  When the deadline fires during the first wait, the goroutine has run a part of its body
  only. \<open>textWorldAt\<close> is the state of the stores and the log at that instant: before the call
  of \<open>UpdateRecipeDef\<close> has taken effect; after it and the first \<open>k\<close> rounds of the tag loop;
  after \<open>AssociateTagsWithRecipe\<close> has returned; or with all its work done, while it waits
  to send. A goroutine that has ended its work earlier, on an error, leaves what it had done.
\<close>

definition tagProgress :: "env \<Rightarrow> Recipe \<Rightarrow> RecipeManager \<Rightarrow> progress \<Rightarrow> world \<Rightarrow> world" where
  "tagProgress env recipe1 recipeManager p w1 =
     (case p of
        InTagLoop k \<Rightarrow>
          snd (tagLoop (faultPlan env) (unicodeLower env)
                 (take k (defHashtags (RecipeDef recipeManager))) [] w1)
      | _ \<Rightarrow>
          snd (AssociateTagsWithRecipe (faultPlan env) (unicodeLower env) recipe1
                 (defHashtags (RecipeDef recipeManager)) w1))"

definition textWorldAt :: "env \<Rightarrow> Recipe \<Rightarrow> progress \<Rightarrow> world \<Rightarrow> world" where
  "textWorldAt env recipe p w =
     (if p = BeforeUpdate then w
      else if p = ReadyToSend then snd (textStage env recipe w)
      else
        (case generated env of
           Inl err \<Rightarrow> w
         | Inr recipeManager \<Rightarrow>
             (case populateRecipeCoreFields recipe recipeManager of
                (Value u, recipe1) \<Rightarrow>
                  (case UpdateRecipeDef (faultPlan env) recipe1
                          (NextRecipeHistoryEntry recipeManager) w of
                     (Some err, w1) \<Rightarrow> w1
                   | (None, w1) \<Rightarrow> tagProgress env recipe1 recipeManager p w1)
              | (Error err, recipe1) \<Rightarrow> w
              | (Panic, recipe1) \<Rightarrow> w)))"

subsection \<open>The supervising function\<close>

text \<open>
  The two failure cases of the first \<open>select\<close> run the same statements after the error \<open>err\<close>
  is at hand (the error received, or the error made for the time-out):
  \<^verbatim>\<open>
  log.Printf("error: %v", err)
  e := s.DeleteRecipe(recipe.ID)
  if e != nil {
      log.Printf("error: failed to delete recipe: %v", e)
      return
  }
  log.Printf("recipe %d deleted", recipe.ID)
  return
  \<close>
\<close>

definition rollback :: "env \<Rightarrow> Recipe \<Rightarrow> string \<Rightarrow> world \<Rightarrow> world" where
  "rollback env recipe err w =
     (let w1 = Println (''error: '' @ err) w in
      case DeleteRecipe (faultPlan env) (ID recipe) w1 of
        (Some e, w2) \<Rightarrow> Println (''error: failed to delete recipe: '' @ e) w2
      | (None, w2) \<Rightarrow> Println (''recipe '' @ showNat (ID recipe) @ '' deleted'') w2)"

text \<open>
  The second \<open>select\<close> and what follows it:
  \<^verbatim>\<open>
  select {
  case err := <-imageErrChan:
      if err != nil { log.Println(err); return }
      var recipeImageURL string
      if imageURL, err := uploadRecipeImage(recipe.ID, recipeManager, s.Cfg); err != nil {
          log.Println(err); return
      } else { recipeImageURL = imageURL }
      if err := s.Repo.UpdateRecipeImageURL(recipe.ID, recipeImageURL); err != nil {
          log.Println(err); return
      }
  case <-ctx.Done():
      err := errors.New("incomplete recipe image generation: timed out after 5 minutes")
      log.Println(err)
      return
  }
  \<close>
  The image goroutine sends the error of \<open>GenerateRecipeImage\<close>, or \<open>nil\<close>.
\<close>

definition imageStage :: "env \<Rightarrow> Recipe \<Rightarrow> world \<Rightarrow> world" where
  "imageStage env recipe w =
     (case fst (secondWait env) of
        Received \<Rightarrow>
          (case imageGenerated env of
             Inl err \<Rightarrow> Println err w
           | Inr ImageBytes \<Rightarrow>
               (case uploadRecipeImage (faultPlan env) (urlOf env) (ID recipe) ImageBytes w of
                  (Inl err, w1) \<Rightarrow> Println err w1
                | (Inr recipeImageURL, w1) \<Rightarrow>
                    (case UpdateRecipeImageURL (faultPlan env) (ID recipe) recipeImageURL w1 of
                       (Some err, w2) \<Rightarrow> Println err w2
                     | (None, w2) \<Rightarrow> w2)))
      | DeadlineExceeded \<Rightarrow>
          Println ''incomplete recipe image generation: timed out after 5 minutes'' w)"

text \<open>
  \<open>FinishGenerateRecipeWithChat\<close>: the first \<open>select\<close>, with the roll-back on an error and on
  the deadline, then the image stage. The function returns nothing; the model gives the state
  of the stores and the log when it returns, or \<open>Crashed\<close> when the process has panicked.
  \<^verbatim>\<open>
  select {
  case err := <-recipeErrChan:
      if err != nil { ... roll back with err ... }
  case <-ctx.Done():
      err := errors.New("incomplete recipe generation: timed out after 5 minutes")
      ... roll back with err ...
  }
  \<close>
\<close>

datatype 'a run = Returned 'a | Crashed

definition FinishGenerateRecipeWithChat :: "env \<Rightarrow> Recipe \<Rightarrow> world \<Rightarrow> world run" where
  "FinishGenerateRecipeWithChat env recipe w =
     (case fst (firstWait env) of
        Received \<Rightarrow>
          (case textStage env recipe w of
             (Crash, w1) \<Rightarrow> Crashed
           | (Signal (Some err), w1) \<Rightarrow> Returned (rollback env recipe err w1)
           | (Signal None, w1) \<Rightarrow> Returned (imageStage env recipe w1))
      | DeadlineExceeded \<Rightarrow>
          Returned (rollback env recipe
            ''incomplete recipe generation: timed out after 5 minutes''
            (textWorldAt env recipe (progressAtDeadline env) w)))"

subsection \<open>What the text goroutine goes on to do after the deadline\<close>

text \<open>
  The text goroutine is handed \<open>ctx\<close> and never reads it, and nothing else stops it: when the
  deadline case of the first \<open>select\<close> is taken, the goroutine runs the rest of its body, on
  the stores as the roll-back has left them, and then stays blocked on its send, which is
  never received. \<open>textRemainder\<close> is the state of the stores and the log when it has got
  there. Of its two states, the first is the one the goroutine started from, which gives
  back what it holds in its variables (the populated recipe, the tags resolved in the rounds
  of the loop done before, the error that \<open>AssociateTagsWithRecipe\<close> has returned), and the
  second is the one it goes on from. The roll-back of the supervising function is taken as a
  whole, between the part of the body run before the deadline and the rest. The image
  goroutine, where it was started, calls the recipe manager and sends; it calls no store.
\<close>

definition tagRemainder ::
  "env \<Rightarrow> Recipe \<Rightarrow> RecipeManager \<Rightarrow> progress \<Rightarrow> world \<Rightarrow> world \<Rightarrow> world" where
  "tagRemainder env recipe1 recipeManager p w1 w =
     (case p of
        InTagLoop k \<Rightarrow>
          (case tagLoop (faultPlan env) (unicodeLower env)
                  (take k (defHashtags (RecipeDef recipeManager))) [] w1 of
             (Inl err, w1') \<Rightarrow> Println err w
           | (Inr resolved, w1') \<Rightarrow>
               (case tagLoop (faultPlan env) (unicodeLower env)
                       (drop k (defHashtags (RecipeDef recipeManager))) resolved w of
                  (Inl err, w2) \<Rightarrow> Println err w2
                | (Inr associatedTags, w2) \<Rightarrow>
                    (case UpdateRecipeTagsAssociation (faultPlan env) (ID recipe1)
                            associatedTags w2 of
                       (Some err, w3) \<Rightarrow>
                         Println (''failed to update recipe with tags: '' @ err) w3
                     | (None, w3) \<Rightarrow> w3)))
      | _ \<Rightarrow>
          (case fst (AssociateTagsWithRecipe (faultPlan env) (unicodeLower env) recipe1
                       (defHashtags (RecipeDef recipeManager)) w1) of
             Some err \<Rightarrow> Println err w
           | None \<Rightarrow> w))"

definition textRemainder :: "env \<Rightarrow> Recipe \<Rightarrow> progress \<Rightarrow> world \<Rightarrow> world \<Rightarrow> world" where
  "textRemainder env recipe p w0 w =
     (if p = BeforeUpdate then snd (textStage env recipe w)
      else if p = ReadyToSend then w
      else
        (case generated env of
           Inl err \<Rightarrow> w
         | Inr recipeManager \<Rightarrow>
             (case populateRecipeCoreFields recipe recipeManager of
                (Value u, recipe1) \<Rightarrow>
                  (case UpdateRecipeDef (faultPlan env) recipe1
                          (NextRecipeHistoryEntry recipeManager) w0 of
                     (Some err, w1) \<Rightarrow> w
                   | (None, w1) \<Rightarrow> tagRemainder env recipe1 recipeManager p w1 w)
              | (Error err, recipe1) \<Rightarrow> w
              | (Panic, recipe1) \<Rightarrow> w)))"

text \<open>
  \<open>settledWorld\<close> is the state of the stores and the log once every goroutine of a run that
  started in \<open>w\<close> and returned in \<open>w'\<close> has done its last store call and written its last
  log line. A text goroutine whose signal was received has ended with that send.
\<close>

definition settledWorld :: "env \<Rightarrow> Recipe \<Rightarrow> world \<Rightarrow> world \<Rightarrow> world" where
  "settledWorld env recipe w w' =
     (case fst (firstWait env) of
        Received \<Rightarrow> w'
      | DeadlineExceeded \<Rightarrow> textRemainder env recipe (progressAtDeadline env) w w')"

subsection \<open>Conditions on a run and on the store\<close>

text \<open>
  The first wait fails when the deadline case is taken, or when the signal received is an
  error. \<open>worldAtFirstWait\<close> is the state of the stores and the log at the instant the first
  \<open>select\<close> runs: what the text goroutine has left by then. A store keeps the recipe
  invariant when no row has a title without a history entry.
\<close>

definition textFailed :: "env \<Rightarrow> Recipe \<Rightarrow> world \<Rightarrow> bool" where
  "textFailed env recipe w =
     (case fst (firstWait env) of
        DeadlineExceeded \<Rightarrow> True
      | Received \<Rightarrow> (case fst (textStage env recipe w) of Signal (Some err) \<Rightarrow> True | _ \<Rightarrow> False))"

definition worldAtFirstWait :: "env \<Rightarrow> Recipe \<Rightarrow> world \<Rightarrow> world" where
  "worldAtFirstWait env recipe w =
     (case fst (firstWait env) of
        Received \<Rightarrow> snd (textStage env recipe w)
      | DeadlineExceeded \<Rightarrow> textWorldAt env recipe (progressAtDeadline env) w)"

definition titledHasHistory :: "RecipeRow \<Rightarrow> bool" where
  "titledHasHistory row = (if rowTitle row = [] then True else rowHistory row \<noteq> [])"

definition storeInvariant :: "world \<Rightarrow> bool" where
  "storeInvariant w = (\<forall>row \<in> ran (recipes w). titledHasHistory row)"

section \<open>Example data\<close>

text \<open>A draft as \<open>InitGenerateRecipeWithChat\<close> leaves it, and surroundings without faults.\<close>

definition noFaults :: faults where
  "noFaults = (\<lambda>n. None)"

definition draftRow :: RecipeRow where
  "draftRow = \<lparr>rowTitle = [], rowIngredients = [], rowInstructions = [], rowCookTime = 0,
     rowLinkSuggestions = [], rowImagePrompt = [], rowHistory = [], rowImageURL = None\<rparr>"

definition draftRecipe :: Recipe where
  "draftRecipe = \<lparr>ID = 7, Title = [], Ingredients = None, Instructions = None, CookTime = 0,
     LinkSuggestions = None, ImagePrompt = [], History = Some (Some []), ImageURL = []\<rparr>"

definition draftWorld :: world where
  "draftWorld = \<lparr>recipes = [7 \<mapsto> draftRow],
     tags = [\<lparr>TagID = 1, Hashtag = runes ''spicychicken''\<rparr>],
     recipeTags = Map.empty, images = Map.empty, logs = [], ops = 0\<rparr>"

definition taggedWorld :: world where
  "taggedWorld = draftWorld\<lparr>
     tags := [\<lparr>TagID = 1, Hashtag = runes ''spicychicken''\<rparr>, \<lparr>TagID = 2, Hashtag = runes ''vegan''\<rparr>],
     recipeTags := [7 \<mapsto> [\<lparr>TagID = 1, Hashtag = runes ''spicychicken''\<rparr>,
                          \<lparr>TagID = 2, Hashtag = runes ''vegan''\<rparr>]],
     ops := 4\<rparr>"

definition veganLunch :: RecipeManager where
  "veganLunch = \<lparr>RecipeDef = \<lparr>defTitle = ''Quick vegan lunch'',
       defIngredients = Some [''tofu'', ''rice'', ''kale''],
       defInstructions = Some [''cook rice'', ''fry tofu'', ''steam kale'', ''serve''],
       defCookTime = 15, defLinkedRecipeSuggestions = None,
       defImagePrompt = ''a bowl of tofu and rice'',
       defHashtags = [runes ''#Spicy Chicken'', runes ''Vegan'']\<rparr>,
     RecipeHistoryEntries = Some [''quick vegan lunch''],
     NextRecipeHistoryEntry = ''quick vegan lunch''\<rparr>"

definition calmEnv :: env where
  "calmEnv = \<lparr>faultPlan = noFaults, unicodeLower = (\<lambda>r. r), urlOf = (\<lambda>k. ''https://img/'' @ showNat k),
     generated = Inr veganLunch, imageGenerated = Inr [1, 2, 3],
     entryTime = 0, textReadyAt = 20 * Second, imageReadyAt = 40 * Second,
     tieText = True, tieImage = True, progressAtDeadline = BeforeUpdate\<rparr>"

definition failedTextEnv :: env where
  "failedTextEnv = calmEnv\<lparr>generated :=
     Inl ''exhausted maximum retries. Exiting. ChatCompletion error: overloaded''\<rparr>"

definition lateTextEnv :: env where
  "lateTextEnv = calmEnv\<lparr>textReadyAt := 6 * Minute, progressAtDeadline := InTagLoop 1\<rparr>"

definition slowTextEnv :: env where
  "slowTextEnv = calmEnv\<lparr>textReadyAt := 6 * Minute\<rparr>"

definition lateImageEnv :: env where
  "lateImageEnv = calmEnv\<lparr>textReadyAt := 4 * Minute, imageReadyAt := 6 * Minute\<rparr>"

definition tagFaultEnv :: env where
  "tagFaultEnv = calmEnv\<lparr>faultPlan := (\<lambda>n. if n = 1 then Some ''connection reset'' else None)\<rparr>"

text \<open>The recipe and the row once the text stage of these surroundings has run.\<close>

definition populatedRecipe :: Recipe where
  "populatedRecipe = \<lparr>ID = 7, Title = ''Quick vegan lunch'',
     Ingredients = Some [''tofu'', ''rice'', ''kale''],
     Instructions = Some [''cook rice'', ''fry tofu'', ''steam kale'', ''serve''],
     CookTime = 15, LinkSuggestions = None, ImagePrompt = ''a bowl of tofu and rice'',
     History = Some (Some [''quick vegan lunch'']), ImageURL = []\<rparr>"

definition populatedRow :: RecipeRow where
  "populatedRow = \<lparr>rowTitle = ''Quick vegan lunch'',
     rowIngredients = [''tofu'', ''rice'', ''kale''],
     rowInstructions = [''cook rice'', ''fry tofu'', ''steam kale'', ''serve''],
     rowCookTime = 15, rowLinkSuggestions = [], rowImagePrompt = ''a bowl of tofu and rice'',
     rowHistory = [''quick vegan lunch''], rowImageURL = None\<rparr>"

definition textDoneWorld :: world where
  "textDoneWorld = taggedWorld\<lparr>recipes := [7 \<mapsto> populatedRow], ops := 5\<rparr>"

text \<open>
  The stores and the log when the run of \<open>lateTextEnv\<close> returns: the deadline fired after the
  first round of the tag loop, and the draft has been deleted.
\<close>

definition deletedWorld :: world where
  "deletedWorld = draftWorld\<lparr>recipes := Map.empty,
     logs := [''error: incomplete recipe generation: timed out after 5 minutes'',
              ''recipe 7 deleted''],
     ops := 4\<rparr>"

section \<open>Supporting facts\<close>

subsection \<open>Facts about the string functions\<close>

lemma ReplaceAll_delete: "ReplaceAll s old [] = filter (\<lambda>r. r \<noteq> old) s"
  by (induction s) (simp_all add: ReplaceAll_def)

lemma TrimPrefix_single: "TrimPrefix s [p] = (case s of [] \<Rightarrow> [] | r # rs \<Rightarrow> if r = p then rs else r # rs)"
  by (cases s) (simp_all add: TrimPrefix_def)

lemma TrimPrefix_hash: "TrimPrefix s [hash] = stripLeadingHash s"
  by (cases s) (simp_all add: TrimPrefix_single)

lemma set_stripLeadingHash: "set (stripLeadingHash s) \<subseteq> set s"
  by (cases s) auto

lemma cleanHashtag_unfold:
  "cleanHashtag tbl s = stripLeadingHash (filter (\<lambda>r. r \<noteq> space) (map (toLowerRune tbl) s))"
  by (simp add: cleanHashtag_def ToLower_def ReplaceAll_delete TrimPrefix_hash)

lemma toLowerRune_not_upper:
  assumes "\<forall>r. 128 \<le> r \<longrightarrow> \<not> isUpperASCII (tbl r)"
  shows "\<not> isUpperASCII (toLowerRune tbl r)"
proof (cases "r < 128")
  case True
  then show ?thesis by (simp add: toLowerRune_def isUpperASCII_def)
next
  case False
  with assms show ?thesis by (simp add: toLowerRune_def)
qed

lemma cleanHashtag_ascii_examples:
  "cleanHashtag tbl (runes ''#Spicy Chicken'') = runes ''spicychicken''"
  "cleanHashtag tbl (runes ''spicy chicken'') = runes ''spicychicken''"
  "cleanHashtag tbl (runes ''  SPICY   CHICKEN'') = runes ''spicychicken''"
  by (simp_all add: cleanHashtag_unfold runes_def toLowerRune_def isUpperASCII_def
      space_def hash_def)

lemma cleanHashtag_double_hash:
  "cleanHashtag tbl (runes ''##a'') = runes ''#a''"
  "cleanHashtag tbl (runes ''#a'') = runes ''a''"
  by (simp_all add: cleanHashtag_unfold runes_def toLowerRune_def isUpperASCII_def
      space_def hash_def)

subsection \<open>Facts about the retry loop\<close>

lemma transient_step:
  assumes "isTransient (call i)" "i < maxRetries"
  shows "retryLoop call i sl prev = retryLoop call (Suc i) (sl @ [2 * Second]) (Some (call i))"
  using assms
  by (subst retryLoop.simps) (auto simp: isTransient_def handleAPIError_def split: response.splits providerError.splits)

lemma retryLoop_skip:
  assumes "i \<le> k" "k \<le> maxRetries" "\<forall>j. i \<le> j \<and> j < k \<longrightarrow> isTransient (call j)"
  shows "retryLoop call i sl prev =
         retryLoop call k (sl @ replicate (k - i) (2 * Second)) (if k = i then prev else Some (call (k - 1)))"
  using assms
proof (induction k rule: dec_induct)
  case base
  then show ?case by simp
next
  case (step n)
  then have "retryLoop call i sl prev =
         retryLoop call n (sl @ replicate (n - i) (2 * Second)) (if n = i then prev else Some (call (n - 1)))"
    by simp
  also have "\<dots> = retryLoop call (Suc n) ((sl @ replicate (n - i) (2 * Second)) @ [2 * Second]) (Some (call n))"
    using step by (intro transient_step) auto
  finally show ?case using step by (simp add: Suc_diff_le replicate_append_same)
qed

lemma loop_at_success:
  assumes "k < maxRetries" "call k = Success r"
  shows "retryLoop call k sl prev = (After (Some (Success r)), Suc k, sl)"
  using assms by (subst retryLoop.simps) simp

lemma loop_at_noretry:
  assumes "k < maxRetries" "call k = Failure e" "\<not> fst (handleAPIError e)"
  shows "retryLoop call k sl prev = (Return (snd (snd (handleAPIError e))), Suc k, sl)"
  using assms by (cases "handleAPIError e") (subst retryLoop.simps, simp)

lemma loop_at_end:
  "retryLoop call maxRetries sl prev = (After prev, maxRetries, sl)"
  by (subst retryLoop.simps) simp

lemma loop_at_retry:
  assumes "k < maxRetries" "call k = Failure e" "fst (handleAPIError e)"
  shows "retryLoop call k sl prev =
         retryLoop call (Suc k) (sl @ [fst (snd (handleAPIError e))]) (Some (Failure e))"
  using assms by (cases "handleAPIError e") (subst retryLoop.simps, simp)

lemma loop_attempts_bounds:
  "maxRetries - i = n \<Longrightarrow> i \<le> maxRetries \<Longrightarrow>
     i \<le> fst (snd (retryLoop call i sl prev)) \<and> fst (snd (retryLoop call i sl prev)) \<le> maxRetries
     \<and> (i < maxRetries \<longrightarrow> i < fst (snd (retryLoop call i sl prev)))"
proof (induction n arbitrary: i sl prev)
  case 0
  then have "i = maxRetries" by simp
  then show ?case by (simp add: loop_at_end)
next
  case (Suc n)
  then have lt: "i < maxRetries" by simp
  show ?case
  proof (cases "call i")
    case (Success r)
    with lt show ?thesis by (simp add: loop_at_success)
  next
    case (Failure e)
    show ?thesis
    proof (cases "fst (handleAPIError e)")
      case False
      with lt Failure show ?thesis by (simp add: loop_at_noretry)
    next
      case True
      have "maxRetries - Suc i = n" "Suc i \<le> maxRetries" using Suc.prems by simp_all
      from Suc.IH [OF this, of "sl @ [fst (snd (handleAPIError e))]" "Some (Failure e)"]
      have "Suc i \<le> fst (snd (retryLoop call i sl prev))"
        and "fst (snd (retryLoop call i sl prev)) \<le> maxRetries"
        using lt Failure True by (simp_all add: loop_at_retry)
      then show ?thesis by simp
    qed
  qed
qed

lemma loop_prefix_transient:
  assumes "k \<le> maxRetries" "\<forall>i<k. isTransient (call i)"
  shows "retryLoop call 0 [] None =
         retryLoop call k (replicate k (2 * Second)) (if k = 0 then None else Some (call (k - 1)))"
  using retryLoop_skip [of 0 k call "[]" None] assms by simp

lemma transientUpTo_iff: "transientUpTo call k = (\<forall>i<k. isTransient (call i))"
  by (auto simp: transientUpTo_def list_all_iff)

text \<open>What the loop does once the first \<open>k\<close> answers were transient, by the answer number \<open>k\<close>.\<close>

lemma loop_success:
  assumes "k < maxRetries" "transientUpTo call k" "call k = Success resp"
  shows "retryLoop call 0 [] None = (After (Some (Success resp)), Suc k, replicate k (2 * Second))"
  using assms loop_prefix_transient [of k call]
  by (simp add: transientUpTo_iff loop_at_success)

lemma loop_noretry:
  assumes "k < maxRetries" "transientUpTo call k" "call k = Failure e" "\<not> fst (handleAPIError e)"
  shows "retryLoop call 0 [] None = (Return (snd (snd (handleAPIError e))), Suc k, replicate k (2 * Second))"
  using assms loop_prefix_transient [of k call]
  by (simp add: transientUpTo_iff loop_at_noretry)

lemma loop_exhausted:
  assumes "transientUpTo call maxRetries"
  shows "retryLoop call 0 [] None =
     (After (Some (call (maxRetries - 1))), maxRetries, replicate maxRetries (2 * Second))"
proof -
  have "0 < maxRetries" by (simp add: maxRetries_def)
  then show ?thesis
    using assms loop_prefix_transient [of maxRetries call]
    by (simp add: transientUpTo_iff loop_at_end)
qed

lemma handleAPIError_401: "handleAPIError (APIError 401 msg) = (False, 0, ''invalid auth or key. Do not retry'')"
  by (simp add: handleAPIError_def)

lemma handleAPIError_unrecognized:
  "isUnrecognized e \<Longrightarrow> handleAPIError e = (False, 0, ''unhandled error: '' @ errorText e)"
  by (cases e) (auto simp: handleAPIError_def isUnrecognized_def)

lemma isTransient_Failure: "isTransient r \<Longrightarrow> \<exists>e. r = Failure e"
  by (cases r) (auto simp: isTransient_def)

lemma chat_success:
  assumes "k < maxRetries" "transientUpTo call k" "call k = Success resp"
  shows "CreateRecipeChatCompletion um call =
     \<lparr>result = afterChat um resp, attempts = Suc k, sleeps = replicate k (2 * Second)\<rparr>"
  by (simp add: CreateRecipeChatCompletion_def loop_success [OF assms])

lemma chat_noretry:
  assumes "k < maxRetries" "transientUpTo call k" "call k = Failure e" "\<not> fst (handleAPIError e)"
  shows "CreateRecipeChatCompletion um call =
     \<lparr>result = Error (snd (snd (handleAPIError e))), attempts = Suc k, sleeps = replicate k (2 * Second)\<rparr>"
  by (simp add: CreateRecipeChatCompletion_def loop_noretry [OF assms])

lemma chat_exhausted:
  assumes "transientUpTo call maxRetries" "call (maxRetries - 1) = Failure e"
  shows "CreateRecipeChatCompletion um call =
     \<lparr>result = Error (''exhausted maximum retries. Exiting. ChatCompletion error: '' @ errorText e),
      attempts = maxRetries, sleeps = replicate maxRetries (2 * Second)\<rparr>"
  using assms(2) by (simp add: CreateRecipeChatCompletion_def loop_exhausted [OF assms(1)])

lemma image_success:
  assumes "k < maxRetries" "transientUpTo call k" "call k = Success resp"
  shows "CreateImage dec call =
     \<lparr>result = afterImage dec resp, attempts = Suc k, sleeps = replicate k (2 * Second)\<rparr>"
  by (simp add: CreateImage_def loop_success [OF assms])

lemma image_noretry:
  assumes "k < maxRetries" "transientUpTo call k" "call k = Failure e" "\<not> fst (handleAPIError e)"
  shows "CreateImage dec call =
     \<lparr>result = Error (snd (snd (handleAPIError e))), attempts = Suc k, sleeps = replicate k (2 * Second)\<rparr>"
  by (simp add: CreateImage_def loop_noretry [OF assms])

lemma image_exhausted:
  assumes "transientUpTo call maxRetries" "call (maxRetries - 1) = Failure e"
  shows "CreateImage dec call =
     \<lparr>result = Error (''exhausted maximum retries. Exiting. CreateImage error: '' @ errorText e),
      attempts = maxRetries, sleeps = replicate maxRetries (2 * Second)\<rparr>"
  using assms(2) by (simp add: CreateImage_def loop_exhausted [OF assms(1)])

lemma chat_attempts: "1 \<le> attempts (CreateRecipeChatCompletion um call) \<and> attempts (CreateRecipeChatCompletion um call) \<le> maxRetries"
proof -
  obtain x n sl where r: "retryLoop call 0 [] None = (x, n, sl)"
    by (cases "retryLoop call 0 [] None") auto
  have "0 < n \<and> n \<le> maxRetries"
    using loop_attempts_bounds [of 0 maxRetries call "[]" None] r by (simp add: maxRetries_def)
  moreover have "attempts (CreateRecipeChatCompletion um call) = n"
    by (simp add: CreateRecipeChatCompletion_def r split: loopExit.splits option.splits response.splits)
  ultimately show ?thesis by simp
qed

lemma image_attempts: "1 \<le> attempts (CreateImage dec call) \<and> attempts (CreateImage dec call) \<le> maxRetries"
proof -
  obtain x n sl where r: "retryLoop call 0 [] None = (x, n, sl)"
    by (cases "retryLoop call 0 [] None") auto
  have "0 < n \<and> n \<le> maxRetries"
    using loop_attempts_bounds [of 0 maxRetries call "[]" None] r by (simp add: maxRetries_def)
  moreover have "attempts (CreateImage dec call) = n"
    by (simp add: CreateImage_def r split: loopExit.splits option.splits response.splits)
  ultimately show ?thesis by simp
qed

lemma five: "maxRetries = 5"
  by (simp add: maxRetries_def)

lemma afterChat_empty: "emptyChat resp \<Longrightarrow> afterChat um resp = Error ''OpenAI API returned an empty message''"
  by (cases resp) (auto simp: emptyChat_def afterChat_def)

lemma afterImage_empty: "emptyImage resp \<Longrightarrow> afterImage dec resp = Error ''OpenAI API returned an empty image''"
  by (cases resp) (auto simp: emptyImage_def afterImage_def)

subsection \<open>Facts about the tag table and the tag loop\<close>

lemma find_distinct_name:
  "distinct (map Hashtag ts) \<Longrightarrow> t \<in> set ts \<Longrightarrow> find (\<lambda>x. Hashtag x = Hashtag t) ts = Some t"
  by (induction ts) (auto simp: image_iff)

lemma find_name_Some: "find (\<lambda>x. Hashtag x = n) ts = Some t \<Longrightarrow> t \<in> set ts \<and> Hashtag t = n"
  by (induction ts) (auto split: if_splits)

lemma FindTagByName_cases:
  assumes "FindTagByName f n w = (r, w1)"
  shows "w1 = tick w"
    and "r = Found t \<Longrightarrow> t \<in> set (tags w) \<and> Hashtag t = n"
    and "r = RecordNotFound \<Longrightarrow> n \<notin> set (map Hashtag (tags w))"
proof -
  show "w1 = tick w"
    using assms by (auto simp: FindTagByName_def split: option.splits)
  show "r = Found t \<Longrightarrow> t \<in> set (tags w) \<and> Hashtag t = n"
    using assms by (auto simp: FindTagByName_def split: option.splits dest: find_name_Some)
  show "r = RecordNotFound \<Longrightarrow> n \<notin> set (map Hashtag (tags w))"
    using assms by (auto simp: FindTagByName_def find_None_iff split: option.splits)
qed

lemma CreateTag_ok:
  assumes "CreateTag f \<lparr>TagID = 0, Hashtag = n\<rparr> w = (Inr t, w1)"
  shows "Hashtag t = n" and "w1 = tick (w\<lparr>tags := tags w @ [t]\<rparr>)"
  using assms by (auto simp: CreateTag_def Let_def split: option.splits)

lemma tick_fields [simp]:
  "recipes (tick w) = recipes w" "tags (tick w) = tags w" "recipeTags (tick w) = recipeTags w"
  "images (tick w) = images w" "logs (tick w) = logs w" "ops (tick w) = ops w + 1"
  by (simp_all add: tick_def)

lemma tagLoop_ok:
  assumes "tagLoop f tbl raw acc w = (Inr res, w1)" "distinct (map Hashtag (tags w))"
  shows "\<exists>created resolved.
           tags w1 = tags w @ created
         \<and> distinct (map Hashtag (tags w1))
         \<and> set (map Hashtag created) = set (map (cleanHashtag tbl) raw) - set (map Hashtag (tags w))
         \<and> res = acc @ resolved
         \<and> map Hashtag resolved = map (cleanHashtag tbl) raw
         \<and> set resolved \<subseteq> set (tags w1)
         \<and> recipes w1 = recipes w \<and> recipeTags w1 = recipeTags w
         \<and> images w1 = images w \<and> logs w1 = logs w"
  using assms
proof (induction raw arbitrary: acc w)
  case Nil
  then show ?case by simp
next
  case (Cons h rest)
  let ?n = "cleanHashtag tbl h"
  obtain r wf where fnd: "FindTagByName f ?n w = (r, wf)"
    by (cases "FindTagByName f ?n w") auto
  note fc = FindTagByName_cases [OF fnd]
  show ?case
  proof (cases r)
    case (Found t)
    with Cons.prems fnd have run: "tagLoop f tbl rest (acc @ [t]) wf = (Inr res, w1)"
      by (simp add: Let_def)
    have d: "distinct (map Hashtag (tags wf))" using Cons.prems fc(1) by simp
    from Cons.IH [OF run d] obtain created resolved where ih:
      "tags w1 = tags wf @ created" "distinct (map Hashtag (tags w1))"
      "set (map Hashtag created) = set (map (cleanHashtag tbl) rest) - set (map Hashtag (tags wf))"
      "res = (acc @ [t]) @ resolved" "map Hashtag resolved = map (cleanHashtag tbl) rest"
      "set resolved \<subseteq> set (tags w1)"
      "recipes w1 = recipes wf" "recipeTags w1 = recipeTags wf"
      "images w1 = images wf" "logs w1 = logs wf"
      by blast
    from fc(2) [OF Found] have t: "t \<in> set (tags w)" "Hashtag t = ?n" by simp_all
    have inn: "?n \<in> Hashtag ` set (tags w)" using t by force
    have "set (map Hashtag created) = set (map (cleanHashtag tbl) (h # rest)) - set (map Hashtag (tags w))"
      using ih(3) inn fc(1) by auto
    moreover have "res = acc @ (t # resolved)" using ih(4) by simp
    moreover have "map Hashtag (t # resolved) = map (cleanHashtag tbl) (h # rest)"
      using ih(5) t by simp
    moreover have "set (t # resolved) \<subseteq> set (tags w1)"
      using ih(1,6) t fc(1) by auto
    ultimately show ?thesis
      using ih(1,2,7-10) fc(1) by (intro exI [of _ created] exI [of _ "t # resolved"]) simp
  next
    case RecordNotFound
    obtain c wc where cr: "CreateTag f \<lparr>TagID = 0, Hashtag = ?n\<rparr> wf = (c, wc)"
      by (cases "CreateTag f \<lparr>TagID = 0, Hashtag = ?n\<rparr> wf") auto
    show ?thesis
    proof (cases c)
      case (Inl e)
      with Cons.prems fnd RecordNotFound cr show ?thesis by (simp add: Let_def)
    next
      case (Inr t)
      with Cons.prems fnd RecordNotFound cr
      have run: "tagLoop f tbl rest (acc @ [t]) wc = (Inr res, w1)"
        by (simp add: Let_def)
      note ct = CreateTag_ok [OF cr [unfolded Inr]]
      have fresh: "?n \<notin> set (map Hashtag (tags w))" using fc(3) [OF RecordNotFound] .
      have tw: "tags wc = tags w @ [t]" using ct(2) fc(1) by simp
      have d: "distinct (map Hashtag (tags wc))"
        using Cons.prems(2) fresh ct(1) tw by simp
      from Cons.IH [OF run d] obtain created resolved where ih:
        "tags w1 = tags wc @ created" "distinct (map Hashtag (tags w1))"
        "set (map Hashtag created) = set (map (cleanHashtag tbl) rest) - set (map Hashtag (tags wc))"
        "res = (acc @ [t]) @ resolved" "map Hashtag resolved = map (cleanHashtag tbl) rest"
        "set resolved \<subseteq> set (tags w1)"
        "recipes w1 = recipes wc" "recipeTags w1 = recipeTags wc"
        "images w1 = images wc" "logs w1 = logs wc"
        by blast
      have "tags w1 = tags w @ (t # created)" using ih(1) tw by simp
      moreover have "set (map Hashtag (t # created)) =
          set (map (cleanHashtag tbl) (h # rest)) - set (map Hashtag (tags w))"
        using ih(3) tw ct(1) fresh by auto
      moreover have "res = acc @ (t # resolved)" using ih(4) by simp
      moreover have "map Hashtag (t # resolved) = map (cleanHashtag tbl) (h # rest)"
        using ih(5) ct(1) by simp
      moreover have "set (t # resolved) \<subseteq> set (tags w1)"
        using ih(1,6) tw by auto
      moreover have "recipes w1 = recipes w" "recipeTags w1 = recipeTags w"
          "images w1 = images w" "logs w1 = logs w"
        using ih(7-10) ct(2) fc(1) by simp_all
      ultimately show ?thesis
        using ih(2) by (intro exI [of _ "t # created"] exI [of _ "t # resolved"]) simp
    qed
  next
    case (LookupError e)
    with Cons.prems fnd show ?thesis by (simp add: Let_def)
  qed
qed

lemma tagLoop_all_found:
  assumes "tagLoop f tbl raw acc w = (Inr res, w1)" "distinct (map Hashtag (tags w))"
    and "map Hashtag resolved = map (cleanHashtag tbl) raw" "set resolved \<subseteq> set (tags w)"
  shows "res = acc @ resolved \<and> tags w1 = tags w"
  using assms
proof (induction raw arbitrary: acc w resolved)
  case Nil
  then show ?case by simp
next
  case (Cons h rest)
  let ?n = "cleanHashtag tbl h"
  from Cons.prems(3) obtain t ts where res: "resolved = t # ts" "Hashtag t = ?n"
      "map Hashtag ts = map (cleanHashtag tbl) rest"
    by (cases resolved) auto
  with Cons.prems(4) have tin: "t \<in> set (tags w)" "set ts \<subseteq> set (tags w)" by auto
  have fd: "find (\<lambda>x. Hashtag x = ?n) (tags w) = Some t"
    using find_distinct_name [OF Cons.prems(2) tin(1)] res(2) by simp
  show ?case
  proof (cases "f (ops w)")
    case (Some e)
    with Cons.prems(1) show ?thesis by (simp add: Let_def FindTagByName_def)
  next
    case None
    with fd Cons.prems(1) have run: "tagLoop f tbl rest (acc @ [t]) (tick w) = (Inr res, w1)"
      by (simp add: Let_def FindTagByName_def)
    have "res = (acc @ [t]) @ ts \<and> tags w1 = tags (tick w)"
      using Cons.prems(2) res(3) tin(2) by (intro Cons.IH [OF run]) simp_all
    then show ?thesis using res(1) by simp
  qed
qed

lemma UpdateRecipeTagsAssociation_ok:
  assumes "UpdateRecipeTagsAssociation f rid ts w = (None, w1)"
  shows "w1 = tick (w\<lparr>recipeTags := (recipeTags w)(rid \<mapsto> ts)\<rparr>)"
  using assms by (auto simp: UpdateRecipeTagsAssociation_def split: option.splits)

lemma AssociateTags_ok:
  assumes "AssociateTagsWithRecipe f tbl recipe raw w = (None, w1)"
  obtains res wl where "tagLoop f tbl raw [] w = (Inr res, wl)"
    and "w1 = tick (wl\<lparr>recipeTags := (recipeTags wl)(ID recipe \<mapsto> res)\<rparr>)"
proof -
  obtain r wl where l: "tagLoop f tbl raw [] w = (r, wl)"
    by (cases "tagLoop f tbl raw [] w") auto
  show ?thesis
  proof (cases r)
    case (Inl e)
    with assms l show ?thesis by (simp add: AssociateTagsWithRecipe_def)
  next
    case (Inr res)
    obtain u wu where u: "UpdateRecipeTagsAssociation f (ID recipe) res wl = (u, wu)"
      by (cases "UpdateRecipeTagsAssociation f (ID recipe) res wl") auto
    with assms l Inr have "u = None" "wu = w1"
      by (auto simp: AssociateTagsWithRecipe_def split: option.splits)
    with UpdateRecipeTagsAssociation_ok [of f "ID recipe" res wl w1] u l Inr that
    show ?thesis by simp
  qed
qed

text \<open>The tag associator on the example data.\<close>

lemma map_upd_same_eq: "(m(k \<mapsto> a) = m(k \<mapsto> b)) = (a = b)"
  by (auto dest: map_upd_eqD1)

lemmas demo_defs = AssociateTagsWithRecipe_def FindTagByName_def CreateTag_def
  UpdateRecipeTagsAssociation_def tick_def freshTagID_def cleanHashtag_unfold runes_def
  toLowerRune_def isUpperASCII_def space_def hash_def Let_def noFaults_def draftWorld_def
  draftRecipe_def draftRow_def taggedWorld_def map_upd_same_eq

lemma demo_first:
  "AssociateTagsWithRecipe noFaults (\<lambda>r. r) draftRecipe [runes ''#Spicy Chicken'', runes ''Vegan''] draftWorld
   = (None, taggedWorld)"
  by (simp add: demo_defs)

lemma demo_second:
  "AssociateTagsWithRecipe noFaults (\<lambda>r. r) draftRecipe [runes ''#Spicy Chicken'', runes ''Vegan''] taggedWorld
   = (None, taggedWorld\<lparr>ops := 7\<rparr>)"
  by (simp add: demo_defs)

subsection \<open>Facts about the orchestrator\<close>

lemma Println_fields [simp]:
  "recipes (Println l w) = recipes w" "tags (Println l w) = tags w"
  "recipeTags (Println l w) = recipeTags w" "images (Println l w) = images w"
  "logs (Println l w) = logs w @ [l]" "ops (Println l w) = ops w"
  by (simp_all add: Println_def)

lemma FindTagByName_world: "snd (FindTagByName f n w) = tick w"
  by (simp add: FindTagByName_def split: option.splits)

lemma CreateTag_frame:
  "recipes (snd (CreateTag f t w)) = recipes w \<and> logs (snd (CreateTag f t w)) = logs w
   \<and> images (snd (CreateTag f t w)) = images w"
  by (simp add: CreateTag_def Let_def split: option.splits)

lemma tagLoop_frame:
  "recipes (snd (tagLoop f tbl raw acc w)) = recipes w
   \<and> logs (snd (tagLoop f tbl raw acc w)) = logs w
   \<and> images (snd (tagLoop f tbl raw acc w)) = images w"
proof (induction raw arbitrary: acc w)
  case Nil
  show ?case by simp
next
  case (Cons h rest)
  let ?n = "cleanHashtag tbl h"
  obtain r wf where fnd: "FindTagByName f ?n w = (r, wf)"
    by (cases "FindTagByName f ?n w") auto
  then have wf: "wf = tick w" using FindTagByName_world [of f ?n w] by simp
  show ?case
  proof (cases r)
    case (Found t)
    with fnd wf Cons.IH [of "acc @ [t]" "tick w"] show ?thesis by (simp add: Let_def)
  next
    case RecordNotFound
    obtain c wc where cr: "CreateTag f \<lparr>TagID = 0, Hashtag = ?n\<rparr> wf = (c, wc)"
      by (cases "CreateTag f \<lparr>TagID = 0, Hashtag = ?n\<rparr> wf") auto
    with CreateTag_frame [of f "\<lparr>TagID = 0, Hashtag = ?n\<rparr>" wf] wf
    have fr: "recipes wc = recipes w" "logs wc = logs w" "images wc = images w" by simp_all
    show ?thesis
    proof (cases c)
      case (Inl e)
      with fnd RecordNotFound cr fr show ?thesis by (simp add: Let_def)
    next
      case (Inr t)
      with fnd RecordNotFound cr fr Cons.IH [of "acc @ [t]" wc] show ?thesis by (simp add: Let_def)
    qed
  next
    case (LookupError e)
    with fnd wf show ?thesis by (simp add: Let_def)
  qed
qed

lemma UpdateRecipeTagsAssociation_frame:
  "recipes (snd (UpdateRecipeTagsAssociation f rid ts w)) = recipes w
   \<and> logs (snd (UpdateRecipeTagsAssociation f rid ts w)) = logs w
   \<and> images (snd (UpdateRecipeTagsAssociation f rid ts w)) = images w"
  by (simp add: UpdateRecipeTagsAssociation_def split: option.splits)

lemma AssociateTags_frame:
  "recipes (snd (AssociateTagsWithRecipe f tbl recipe raw w)) = recipes w
   \<and> logs (snd (AssociateTagsWithRecipe f tbl recipe raw w)) = logs w
   \<and> images (snd (AssociateTagsWithRecipe f tbl recipe raw w)) = images w"
proof -
  obtain r wl where l: "tagLoop f tbl raw [] w = (r, wl)"
    by (cases "tagLoop f tbl raw [] w") auto
  with tagLoop_frame [of f tbl raw "[]" w]
  have fr: "recipes wl = recipes w" "logs wl = logs w" "images wl = images w" by simp_all
  show ?thesis
  proof (cases r)
    case (Inl e)
    with l fr show ?thesis by (simp add: AssociateTagsWithRecipe_def)
  next
    case (Inr ts)
    obtain u wu where u: "UpdateRecipeTagsAssociation f (ID recipe) ts wl = (u, wu)"
      by (cases "UpdateRecipeTagsAssociation f (ID recipe) ts wl") auto
    with UpdateRecipeTagsAssociation_frame [of f "ID recipe" ts wl] fr
    have "recipes wu = recipes w" "logs wu = logs w" "images wu = images w" by simp_all
    with l Inr u show ?thesis
      by (cases u) (simp_all add: AssociateTagsWithRecipe_def)
  qed
qed

text \<open>The populated recipe.\<close>

lemma populate_no_panic: "fst (populateRecipeCoreFields recipe mgr) \<noteq> Panic"
  by (simp add: populateRecipeCoreFields_def validateRecipeCoreFields_def Let_def split: option.splits)

text \<open>
  The validation asks for a title, ingredients, instructions and an image prompt, and for
  \<open>Entries\<close> not to be \<open>nil\<close>: a draft's empty history passes when the manager adds no entry.
\<close>

lemma validate_accepts_empty_history:
  "validateRecipeCoreFields (populatedRecipe\<lparr>History := Some (Some [])\<rparr>) = Value ()"
  by (simp add: validateRecipeCoreFields_def populatedRecipe_def)

lemma populate_Value:
  assumes "populateRecipeCoreFields recipe mgr = (Value u, recipe1)"
  shows "Title recipe1 = defTitle (RecipeDef mgr)" "Title recipe1 \<noteq> []"
    "Ingredients recipe1 = defIngredients (RecipeDef mgr)" "Ingredients recipe1 \<noteq> None"
    "Instructions recipe1 = defInstructions (RecipeDef mgr)" "Instructions recipe1 \<noteq> None"
    "ImagePrompt recipe1 = defImagePrompt (RecipeDef mgr)" "ImagePrompt recipe1 \<noteq> []"
    "CookTime recipe1 = defCookTime (RecipeDef mgr)"
    "LinkSuggestions recipe1 = defLinkedRecipeSuggestions (RecipeDef mgr)"
    "ID recipe1 = ID recipe"
  using assms
  by (auto simp: populateRecipeCoreFields_def validateRecipeCoreFields_def Let_def
      split: option.splits if_splits)

text \<open>The draft store's updates and the deletion.\<close>

lemma UpdateRecipeDef_ok:
  assumes "UpdateRecipeDef f recipe e w = (None, w1)"
  obtains row where "recipes w (ID recipe) = Some row"
    and "w1 = tick (w\<lparr>recipes := (recipes w)(ID recipe \<mapsto>
                  row\<lparr>rowTitle := Title recipe,
                      rowIngredients := elems (Ingredients recipe),
                      rowInstructions := elems (Instructions recipe),
                      rowCookTime := CookTime recipe,
                      rowLinkSuggestions := elems (LinkSuggestions recipe),
                      rowImagePrompt := ImagePrompt recipe,
                      rowHistory := rowHistory row @ [e]\<rparr>)\<rparr>)"
  using assms by (auto simp: UpdateRecipeDef_def split: option.splits)








lemma DeleteRecipe_frame:
  "tags (snd (DeleteRecipe f ID' w)) = tags w \<and> recipeTags (snd (DeleteRecipe f ID' w)) = recipeTags w"
  by (auto simp: DeleteRecipe_def Repo_DeleteRecipe_def DeleteRecipeImageFromS3_def Let_def
      split: option.splits)

lemma rollback_frame:
  "tags (rollback env recipe err w) = tags w \<and> recipeTags (rollback env recipe err w) = recipeTags w"
proof -
  let ?w1 = "Println (''error: '' @ err) w"
  obtain r w2 where d: "DeleteRecipe (faultPlan env) (ID recipe) ?w1 = (r, w2)"
    by (cases "DeleteRecipe (faultPlan env) (ID recipe) ?w1") auto
  with DeleteRecipe_frame [of "faultPlan env" "ID recipe" ?w1]
  have "tags w2 = tags w" "recipeTags w2 = recipeTags w" by simp_all
  with d show ?thesis by (cases r) (simp_all add: rollback_def Let_def)
qed


lemma Some_elems: "s \<noteq> None \<Longrightarrow> Some (elems s) = s"
  by (cases s) (simp_all add: elems_def)

text \<open>A text stage that signals success.\<close>

lemma textStage_success:
  assumes "textStage env recipe w = (Signal None, w1)"
  obtains mgr recipe1 wu where "generated env = Inr mgr"
    and "populateRecipeCoreFields recipe mgr = (Value (), recipe1)"
    and "UpdateRecipeDef (faultPlan env) recipe1 (NextRecipeHistoryEntry mgr) w = (None, wu)"
    and "recipes w1 = recipes wu"
proof -
  from assms obtain mgr where g: "generated env = Inr mgr"
    by (cases "generated env") (auto simp: textStage_def)
  obtain o1 recipe1 where p: "populateRecipeCoreFields recipe mgr = (o1, recipe1)"
    by (cases "populateRecipeCoreFields recipe mgr") auto
  with assms g have o1: "o1 = Value ()"
    by (cases o1) (auto simp: textStage_def)
  obtain u wu where u: "UpdateRecipeDef (faultPlan env) recipe1 (NextRecipeHistoryEntry mgr) w = (u, wu)"
    by (cases "UpdateRecipeDef (faultPlan env) recipe1 (NextRecipeHistoryEntry mgr) w") auto
  with assms g p o1 have un: "u = None"
    by (cases u) (auto simp: textStage_def)
  obtain a wa where a: "AssociateTagsWithRecipe (faultPlan env) (unicodeLower env) recipe1
                            (defHashtags (RecipeDef mgr)) wu = (a, wa)"
    by (cases "AssociateTagsWithRecipe (faultPlan env) (unicodeLower env) recipe1
                            (defHashtags (RecipeDef mgr)) wu") auto
  with AssociateTags_frame [of "faultPlan env" "unicodeLower env" recipe1 "defHashtags (RecipeDef mgr)" wu]
  have "recipes wa = recipes wu" by simp
  with assms g p o1 u un a have "recipes w1 = recipes wu"
    by (cases a) (auto simp: textStage_def)
  with g p o1 u un that show ?thesis by simp
qed

lemma imageStage_no_image:
  assumes "fst (secondWait env) = DeadlineExceeded \<or> (\<exists>err. imageGenerated env = Inl err)"
  shows "\<exists>line. imageStage env recipe w = Println line w"
proof (cases "fst (secondWait env)")
  case DeadlineExceeded
  then have "imageStage env recipe w =
      Println ''incomplete recipe image generation: timed out after 5 minutes'' w"
    by (simp add: imageStage_def)
  then show ?thesis by blast
next
  case Received
  with assms obtain err where "imageGenerated env = Inl err" by auto
  with Received have "imageStage env recipe w = Println err w"
    by (simp add: imageStage_def)
  then show ?thesis by blast
qed

text \<open>The store invariant along a run.\<close>

lemma storeInvariant_iff:
  "storeInvariant w = (\<forall>rid row. recipes w rid = Some row \<longrightarrow> titledHasHistory row)"
  by (auto simp: storeInvariant_def ran_def)

lemma storeInvariant_same: "recipes w' = recipes w \<Longrightarrow> storeInvariant w' = storeInvariant w"
  by (simp add: storeInvariant_def)

lemma storeInvariant_Println [simp]: "storeInvariant (Println l w) = storeInvariant w"
  by (simp add: storeInvariant_def)

lemma storeInvariant_tick [simp]: "storeInvariant (tick w) = storeInvariant w"
  by (simp add: storeInvariant_def)

lemma UpdateRecipeDef_inv:
  assumes "storeInvariant w"
  shows "storeInvariant (snd (UpdateRecipeDef f recipe e w))"
  using assms
  by (auto simp: UpdateRecipeDef_def storeInvariant_iff titledHasHistory_def split: option.splits)

lemma UpdateRecipeImageURL_inv:
  assumes "storeInvariant w"
  shows "storeInvariant (snd (UpdateRecipeImageURL f rid url w))"
  using assms
  by (auto simp: UpdateRecipeImageURL_def storeInvariant_iff titledHasHistory_def split: option.splits)

lemma DeleteRecipe_inv:
  assumes "storeInvariant w"
  shows "storeInvariant (snd (DeleteRecipe f rid w))"
  using assms
  by (auto simp: DeleteRecipe_def Repo_DeleteRecipe_def DeleteRecipeImageFromS3_def Let_def
      storeInvariant_iff split: option.splits if_splits)

lemma uploadRecipeImage_recipes: "recipes (snd (uploadRecipeImage f urls rid bs w)) = recipes w"
  by (simp add: uploadRecipeImage_def UploadRecipeImageToS3_def Let_def split: option.splits)

lemma rollback_inv:
  assumes "storeInvariant w"
  shows "storeInvariant (rollback env recipe err w)"
proof -
  let ?w1 = "Println (''error: '' @ err) w"
  have i1: "storeInvariant ?w1" using assms by simp
  obtain r w2 where d: "DeleteRecipe (faultPlan env) (ID recipe) ?w1 = (r, w2)"
    by (cases "DeleteRecipe (faultPlan env) (ID recipe) ?w1") auto
  with DeleteRecipe_inv [OF i1, of "faultPlan env" "ID recipe"] have "storeInvariant w2" by simp
  with d show ?thesis
    by (cases r) (simp_all add: rollback_def Let_def)
qed

lemma imageStage_inv:
  assumes "storeInvariant w"
  shows "storeInvariant (imageStage env recipe w)"
proof (cases "fst (secondWait env)")
  case DeadlineExceeded
  with assms show ?thesis by (simp add: imageStage_def)
next
  case Received
  show ?thesis
  proof (cases "imageGenerated env")
    case (Inl err)
    with Received assms show ?thesis by (simp add: imageStage_def)
  next
    case gen: (Inr bs)
    obtain r w1 where up: "uploadRecipeImage (faultPlan env) (urlOf env) (ID recipe) bs w = (r, w1)"
      by (cases "uploadRecipeImage (faultPlan env) (urlOf env) (ID recipe) bs w") auto
    have "recipes w1 = recipes w"
      using uploadRecipeImage_recipes [of "faultPlan env" "urlOf env" "ID recipe" bs w] up by simp
    then have i1: "storeInvariant w1" using assms storeInvariant_same [of w1 w] by simp
    show ?thesis
    proof (cases r)
      case (Inl err)
      then have "imageStage env recipe w = Println err w1"
        using Received gen up by (simp add: imageStage_def)
      with i1 show ?thesis by simp
    next
      case (Inr url)
      obtain u w2 where uu: "UpdateRecipeImageURL (faultPlan env) (ID recipe) url w1 = (u, w2)"
        by (cases "UpdateRecipeImageURL (faultPlan env) (ID recipe) url w1") auto
      with UpdateRecipeImageURL_inv [OF i1, of "faultPlan env" "ID recipe" url]
      have i2: "storeInvariant w2" by simp
      have "imageStage env recipe w = (case u of Some err \<Rightarrow> Println err w2 | None \<Rightarrow> w2)"
        using Received gen up Inr uu by (simp add: imageStage_def)
      with i2 show ?thesis by (cases u) simp_all
    qed
  qed
qed

lemma afterUpdate_inv:
  assumes "storeInvariant w"
  shows "storeInvariant (snd (AssociateTagsWithRecipe f tbl recipe raw w))"
    and "storeInvariant (snd (tagLoop f tbl raw acc w))"
  using assms AssociateTags_frame [of f tbl recipe raw w] tagLoop_frame [of f tbl raw acc w]
    storeInvariant_same [of "snd (AssociateTagsWithRecipe f tbl recipe raw w)" w]
    storeInvariant_same [of "snd (tagLoop f tbl raw acc w)" w]
  by simp_all

lemma textStage_inv:
  assumes "storeInvariant w"
  shows "storeInvariant (snd (textStage env recipe w))"
proof (cases "generated env")
  case (Inl err)
  with assms show ?thesis by (simp add: textStage_def)
next
  case gen: (Inr mgr)
  obtain o1 recipe1 where p: "populateRecipeCoreFields recipe mgr = (o1, recipe1)"
    by (cases "populateRecipeCoreFields recipe mgr") auto
  show ?thesis
  proof (cases o1)
    case (Value u)
    obtain r wu where u: "UpdateRecipeDef (faultPlan env) recipe1 (NextRecipeHistoryEntry mgr) w = (r, wu)"
      by (cases "UpdateRecipeDef (faultPlan env) recipe1 (NextRecipeHistoryEntry mgr) w") auto
    with UpdateRecipeDef_inv [OF assms, of "faultPlan env" recipe1 "NextRecipeHistoryEntry mgr"]
    have iu: "storeInvariant wu" by simp
    show ?thesis
    proof (cases r)
      case (Some err)
      then have "snd (textStage env recipe w) = wu"
        using gen p Value u by (simp add: textStage_def)
      with iu show ?thesis by simp
    next
      case None
      obtain a wa where a: "AssociateTagsWithRecipe (faultPlan env) (unicodeLower env) recipe1
                            (defHashtags (RecipeDef mgr)) wu = (a, wa)"
        by (cases "AssociateTagsWithRecipe (faultPlan env) (unicodeLower env) recipe1
                            (defHashtags (RecipeDef mgr)) wu") auto
      with afterUpdate_inv(1) [OF iu, of "faultPlan env" "unicodeLower env" recipe1
          "defHashtags (RecipeDef mgr)"]
      have ia: "storeInvariant wa" by simp
      have "snd (textStage env recipe w) = (case a of Some err \<Rightarrow> Println err wa | None \<Rightarrow> wa)"
        using gen p Value u None a by (cases a) (simp_all add: textStage_def)
      with ia show ?thesis by (cases a) simp_all
    qed
  next
    case (Error err)
    with gen p assms show ?thesis by (simp add: textStage_def)
  next
    case Panic
    with gen p assms show ?thesis by (simp add: textStage_def)
  qed
qed

lemma tagProgress_inv:
  assumes "storeInvariant w"
  shows "storeInvariant (tagProgress env recipe1 mgr p w)"
  using afterUpdate_inv [OF assms]
  by (cases p) (simp_all add: tagProgress_def)

lemma textWorldAt_inv:
  assumes "storeInvariant w"
  shows "storeInvariant (textWorldAt env recipe p w)"
proof (cases "p = BeforeUpdate \<or> p = ReadyToSend")
  case True
  with assms textStage_inv [OF assms, of env recipe] show ?thesis
    by (auto simp: textWorldAt_def)
next
  case False
  show ?thesis
  proof (cases "generated env")
    case (Inl err)
    with assms False show ?thesis by (simp add: textWorldAt_def)
  next
    case gen: (Inr mgr)
    obtain o1 recipe1 where pp: "populateRecipeCoreFields recipe mgr = (o1, recipe1)"
      by (cases "populateRecipeCoreFields recipe mgr") auto
    show ?thesis
    proof (cases o1)
      case (Value u)
      obtain r wu where u: "UpdateRecipeDef (faultPlan env) recipe1 (NextRecipeHistoryEntry mgr) w = (r, wu)"
        by (cases "UpdateRecipeDef (faultPlan env) recipe1 (NextRecipeHistoryEntry mgr) w") auto
      with UpdateRecipeDef_inv [OF assms, of "faultPlan env" recipe1 "NextRecipeHistoryEntry mgr"]
      have iu: "storeInvariant wu" by simp
      have "textWorldAt env recipe p w =
          (case r of Some err \<Rightarrow> wu | None \<Rightarrow> tagProgress env recipe1 mgr p wu)"
        using False gen pp Value u by (cases r) (simp_all add: textWorldAt_def)
      with iu tagProgress_inv [OF iu, of env recipe1 mgr p] show ?thesis
        by (cases r) simp_all
    next
      case (Error err)
      with gen pp assms False show ?thesis by (simp add: textWorldAt_def)
    next
      case Panic
      with gen pp assms False show ?thesis by (simp add: textWorldAt_def)
    qed
  qed
qed

text \<open>No run panics: the history is read only after it was seen not to be \<open>nil\<close>.\<close>

lemma textStage_no_crash: "fst (textStage env recipe w) \<noteq> Crash"
proof (cases "generated env")
  case (Inl err)
  then show ?thesis by (simp add: textStage_def)
next
  case (Inr mgr)
  obtain o1 recipe1 where p: "populateRecipeCoreFields recipe mgr = (o1, recipe1)"
    by (cases "populateRecipeCoreFields recipe mgr") auto
  with populate_no_panic [of recipe mgr] have np: "o1 \<noteq> Panic" by simp
  show ?thesis
  proof (cases o1)
    case (Value u)
    with Inr p show ?thesis
      by (simp add: textStage_def split: prod.splits option.splits)
  next
    case (Error err)
    with Inr p show ?thesis by (simp add: textStage_def)
  next
    case Panic
    with np show ?thesis by simp
  qed
qed

lemma Finish_returns: "\<exists>w'. FinishGenerateRecipeWithChat env recipe w = Returned w'"
proof (cases "fst (firstWait env)")
  case DeadlineExceeded
  then show ?thesis by (simp add: FinishGenerateRecipeWithChat_def)
next
  case Received
  obtain s w1 where t: "textStage env recipe w = (s, w1)"
    by (cases "textStage env recipe w") auto
  with textStage_no_crash [of env recipe w] have "s \<noteq> Crash" by simp
  with Received t show ?thesis
    by (cases s) (simp_all add: FinishGenerateRecipeWithChat_def split: option.splits)
qed

lemma Finish_inv:
  assumes "storeInvariant w" "FinishGenerateRecipeWithChat env recipe w = Returned w'"
  shows "storeInvariant w'"
proof (cases "fst (firstWait env)")
  case DeadlineExceeded
  with assms(2) have "w' = rollback env recipe
            ''incomplete recipe generation: timed out after 5 minutes''
            (textWorldAt env recipe (progressAtDeadline env) w)"
    by (simp add: FinishGenerateRecipeWithChat_def)
  with rollback_inv [OF textWorldAt_inv [OF assms(1)]] show ?thesis by simp
next
  case Received
  obtain s w1 where t: "textStage env recipe w = (s, w1)"
    by (cases "textStage env recipe w") auto
  with textStage_inv [OF assms(1), of env recipe] have i1: "storeInvariant w1" by simp
  show ?thesis
  proof (cases s)
    case Crash
    with assms(2) Received t show ?thesis by (simp add: FinishGenerateRecipeWithChat_def)
  next
    case (Signal x)
    show ?thesis
    proof (cases x)
      case None
      with assms(2) Received t Signal have "w' = imageStage env recipe w1"
        by (simp add: FinishGenerateRecipeWithChat_def)
      with imageStage_inv [OF i1] show ?thesis by simp
    next
      case (Some err)
      with assms(2) Received t Signal have "w' = rollback env recipe err w1"
        by (simp add: FinishGenerateRecipeWithChat_def)
      with rollback_inv [OF i1] show ?thesis by simp
    qed
  qed
qed

text \<open>The image stage keeps the rows and the log lines there are.\<close>

lemma UpdateRecipeImageURL_frame:
  "dom (recipes (snd (UpdateRecipeImageURL f rid url w))) = dom (recipes w)
   \<and> logs (snd (UpdateRecipeImageURL f rid url w)) = logs w"
  by (auto simp: UpdateRecipeImageURL_def split: option.splits if_splits)

lemma uploadRecipeImage_logs: "logs (snd (uploadRecipeImage f urls rid bs w)) = logs w"
  by (simp add: uploadRecipeImage_def UploadRecipeImageToS3_def Let_def split: option.splits)

lemma imageStage_keeps:
  "dom (recipes (imageStage env recipe w)) = dom (recipes w)
   \<and> set (logs w) \<subseteq> set (logs (imageStage env recipe w))"
proof (cases "fst (secondWait env)")
  case DeadlineExceeded
  then show ?thesis by (auto simp: imageStage_def)
next
  case Received
  show ?thesis
  proof (cases "imageGenerated env")
    case (Inl err)
    with Received show ?thesis by (auto simp: imageStage_def)
  next
    case gen: (Inr bs)
    obtain r w1 where up: "uploadRecipeImage (faultPlan env) (urlOf env) (ID recipe) bs w = (r, w1)"
      by (cases "uploadRecipeImage (faultPlan env) (urlOf env) (ID recipe) bs w") auto
    have k1: "recipes w1 = recipes w" "logs w1 = logs w"
      using uploadRecipeImage_recipes [of "faultPlan env" "urlOf env" "ID recipe" bs w]
        uploadRecipeImage_logs [of "faultPlan env" "urlOf env" "ID recipe" bs w] up by simp_all
    show ?thesis
    proof (cases r)
      case (Inl err)
      then have "imageStage env recipe w = Println err w1"
        using Received gen up by (simp add: imageStage_def)
      with k1 show ?thesis by auto
    next
      case (Inr url)
      obtain u w2 where uu: "UpdateRecipeImageURL (faultPlan env) (ID recipe) url w1 = (u, w2)"
        by (cases "UpdateRecipeImageURL (faultPlan env) (ID recipe) url w1") auto
      with UpdateRecipeImageURL_frame [of "faultPlan env" "ID recipe" url w1] k1
      have k2: "dom (recipes w2) = dom (recipes w)" "logs w2 = logs w" by simp_all
      have "imageStage env recipe w = (case u of Some err \<Rightarrow> Println err w2 | None \<Rightarrow> w2)"
        using Received gen up Inr uu by (simp add: imageStage_def)
      with k2 show ?thesis by (cases u) auto
    qed
  qed
qed

lemma select_le:
  assumes "now \<le> deadline ctx"
  shows "now \<le> snd (select ctx now readyAt tie)" "snd (select ctx now readyAt tie) \<le> deadline ctx"
  using assms by (auto simp: select_def Let_def)

subsection \<open>The example data, evaluated\<close>

lemmas env_defs = calmEnv_def failedTextEnv_def lateTextEnv_def lateImageEnv_def tagFaultEnv_def
  noFaults_def veganLunch_def

lemmas wait_defs = firstWait_def secondWait_def select_def runContext_def WithTimeout_def
  Minute_def Second_def Let_def

lemma demo_populate: "populateRecipeCoreFields draftRecipe veganLunch = (Value (), populatedRecipe)"
  by (simp add: populateRecipeCoreFields_def validateRecipeCoreFields_def goAppend_def elems_def
      Let_def draftRecipe_def veganLunch_def populatedRecipe_def)

lemma demo_update:
  "UpdateRecipeDef noFaults populatedRecipe ''quick vegan lunch'' draftWorld
   = (None, draftWorld\<lparr>recipes := [7 \<mapsto> populatedRow], ops := 1\<rparr>)"
  by (simp add: UpdateRecipeDef_def noFaults_def populatedRecipe_def draftWorld_def draftRow_def
      populatedRow_def elems_def tick_def map_upd_same_eq)

lemma demo_tags:
  "AssociateTagsWithRecipe noFaults (\<lambda>r. r) populatedRecipe [runes ''#Spicy Chicken'', runes ''Vegan'']
     (draftWorld\<lparr>recipes := [7 \<mapsto> populatedRow], ops := 1\<rparr>)
   = (None, textDoneWorld)"
  by (simp add: demo_defs populatedRecipe_def textDoneWorld_def)

lemma demo_textStage:
  assumes "generated env = Inr veganLunch" "faultPlan env = noFaults" "unicodeLower env = (\<lambda>r. r)"
  shows "textStage env draftRecipe draftWorld = (Signal None, textDoneWorld)"
  using demo_populate demo_update demo_tags assms
  by (simp add: textStage_def veganLunch_def)

subsection \<open>The text goroutine after the deadline\<close>

text \<open>The tag loop over a list is the loop over a first part and then over the rest.\<close>

lemma tagLoop_append:
  "tagLoop f tbl (xs @ ys) acc w =
     (case tagLoop f tbl xs acc w of
        (Inl e, w1) \<Rightarrow> (Inl e, w1)
      | (Inr acc1, w1) \<Rightarrow> tagLoop f tbl ys acc1 w1)"
proof (induction xs arbitrary: acc w)
  case Nil
  show ?case by simp
next
  case (Cons h rest)
  let ?n = "cleanHashtag tbl h"
  obtain r wf where fnd: "FindTagByName f ?n w = (r, wf)"
    by (cases "FindTagByName f ?n w") auto
  show ?case
  proof (cases r)
    case (Found t)
    with fnd Cons.IH [of "acc @ [t]" wf] show ?thesis by (simp add: Let_def)
  next
    case RecordNotFound
    obtain c wc where cr: "CreateTag f \<lparr>TagID = 0, Hashtag = ?n\<rparr> wf = (c, wc)"
      by (cases "CreateTag f \<lparr>TagID = 0, Hashtag = ?n\<rparr> wf") auto
    show ?thesis
    proof (cases c)
      case (Inl e)
      with fnd RecordNotFound cr show ?thesis by (simp add: Let_def)
    next
      case (Inr t)
      with fnd RecordNotFound cr Cons.IH [of "acc @ [t]" wc] show ?thesis by (simp add: Let_def)
    qed
  next
    case (LookupError e)
    with fnd show ?thesis by (simp add: Let_def)
  qed
qed

lemma tagLoop_take_drop:
  "tagLoop f tbl raw [] w =
     (case tagLoop f tbl (take k raw) [] w of
        (Inl e, w1) \<Rightarrow> (Inl e, w1)
      | (Inr acc1, w1) \<Rightarrow> tagLoop f tbl (drop k raw) acc1 w1)"
  using tagLoop_append [of f tbl "take k raw" "drop k raw" "[]" w] by simp

text \<open>Undisturbed, the part before the deadline and the rest make the whole body.\<close>

lemma tagRemainder_resumes:
  assumes "p \<noteq> BeforeUpdate" "p \<noteq> ReadyToSend"
  shows "tagRemainder env recipe1 mgr p w1 (tagProgress env recipe1 mgr p w1) =
     (case AssociateTagsWithRecipe (faultPlan env) (unicodeLower env) recipe1
             (defHashtags (RecipeDef mgr)) w1 of
        (Some err, w2) \<Rightarrow> Println err w2
      | (None, w2) \<Rightarrow> w2)"
proof (cases p)
  case BeforeUpdate
  with assms show ?thesis by simp
next
  case ReadyToSend
  with assms show ?thesis by simp
next
  case AfterAssociate
  obtain a wa where a: "AssociateTagsWithRecipe (faultPlan env) (unicodeLower env) recipe1
             (defHashtags (RecipeDef mgr)) w1 = (a, wa)"
    by (cases "AssociateTagsWithRecipe (faultPlan env) (unicodeLower env) recipe1
             (defHashtags (RecipeDef mgr)) w1") auto
  with AfterAssociate show ?thesis
    by (cases a) (simp_all add: tagRemainder_def tagProgress_def)
next
  case (InTagLoop k)
  let ?f = "faultPlan env" and ?tbl = "unicodeLower env" and ?raw = "defHashtags (RecipeDef mgr)"
  obtain r wk where fst_part: "tagLoop ?f ?tbl (take k ?raw) [] w1 = (r, wk)"
    by (cases "tagLoop ?f ?tbl (take k ?raw) [] w1") auto
  have prog: "tagProgress env recipe1 mgr p w1 = wk"
    using InTagLoop fst_part by (simp add: tagProgress_def)
  show ?thesis
  proof (cases r)
    case (Inl err)
    then have whole: "tagLoop ?f ?tbl ?raw [] w1 = (Inl err, wk)"
      using tagLoop_take_drop [of ?f ?tbl ?raw w1 k] fst_part by simp
    show ?thesis
      using InTagLoop fst_part Inl whole prog
      by (simp add: tagRemainder_def AssociateTagsWithRecipe_def)
  next
    case (Inr resolved)
    then have whole: "tagLoop ?f ?tbl ?raw [] w1 = tagLoop ?f ?tbl (drop k ?raw) resolved wk"
      using tagLoop_take_drop [of ?f ?tbl ?raw w1 k] fst_part by simp
    obtain r2 w2 where rest: "tagLoop ?f ?tbl (drop k ?raw) resolved wk = (r2, w2)"
      by (cases "tagLoop ?f ?tbl (drop k ?raw) resolved wk") auto
    show ?thesis
    proof (cases r2)
      case (Inl err)
      with InTagLoop fst_part Inr whole rest prog show ?thesis
        by (simp add: tagRemainder_def AssociateTagsWithRecipe_def)
    next
      case ts: (Inr associatedTags)
      obtain u w3 where u: "UpdateRecipeTagsAssociation ?f (ID recipe1) associatedTags w2 = (u, w3)"
        by (cases "UpdateRecipeTagsAssociation ?f (ID recipe1) associatedTags w2") auto
      with InTagLoop fst_part Inr whole rest ts prog show ?thesis
        by (cases u) (simp_all add: tagRemainder_def AssociateTagsWithRecipe_def)
    qed
  qed
qed

lemma textRemainder_resumes:
  "textRemainder env recipe p w (textWorldAt env recipe p w) = snd (textStage env recipe w)"
proof (cases "p = BeforeUpdate \<or> p = ReadyToSend")
  case True
  then show ?thesis by (auto simp: textRemainder_def textWorldAt_def)
next
  case False
  then have np: "p \<noteq> BeforeUpdate" "p \<noteq> ReadyToSend" by simp_all
  show ?thesis
  proof (cases "generated env")
    case (Inl err)
    with np show ?thesis by (simp add: textRemainder_def textWorldAt_def textStage_def)
  next
    case gen: (Inr mgr)
    obtain o1 recipe1 where pp: "populateRecipeCoreFields recipe mgr = (o1, recipe1)"
      by (cases "populateRecipeCoreFields recipe mgr") auto
    show ?thesis
    proof (cases o1)
      case (Value u)
      obtain r wu where u: "UpdateRecipeDef (faultPlan env) recipe1 (NextRecipeHistoryEntry mgr) w = (r, wu)"
        by (cases "UpdateRecipeDef (faultPlan env) recipe1 (NextRecipeHistoryEntry mgr) w") auto
      show ?thesis
      proof (cases r)
        case (Some err)
        with np gen pp Value u show ?thesis
          by (simp add: textRemainder_def textWorldAt_def textStage_def)
      next
        case None
        obtain a wa where a: "AssociateTagsWithRecipe (faultPlan env) (unicodeLower env) recipe1
             (defHashtags (RecipeDef mgr)) wu = (a, wa)"
          by (cases "AssociateTagsWithRecipe (faultPlan env) (unicodeLower env) recipe1
             (defHashtags (RecipeDef mgr)) wu") auto
        have l: "textRemainder env recipe p w (textWorldAt env recipe p w) =
            tagRemainder env recipe1 mgr p wu (tagProgress env recipe1 mgr p wu)"
          using np gen pp Value u None by (simp add: textRemainder_def textWorldAt_def)
        have r: "snd (textStage env recipe w) = (case a of Some err \<Rightarrow> Println err wa | None \<Rightarrow> wa)"
          using gen pp Value u None a by (cases a) (simp_all add: textStage_def)
        show ?thesis
          unfolding l r tagRemainder_resumes [OF np] a by (cases a) simp_all
      qed
    next
      case (Error err)
      with np gen pp show ?thesis by (simp add: textRemainder_def textWorldAt_def textStage_def)
    next
      case Panic
      with np gen pp show ?thesis by (simp add: textRemainder_def textWorldAt_def textStage_def)
    qed
  qed
qed










text \<open>
  Two runs in which the deadline fires first. In \<open>lateTextEnv\<close> the goroutine has stored the
  recipe and resolved the first tag; the draft is deleted; the goroutine then resolves the
  second tag, making a row for it, and writes the tag association of the recipe that is no
  longer there. In \<open>slowTextEnv\<close> the goroutine has not yet stored the recipe; the draft is
  deleted; the goroutine's update then finds no record and it ends on that error.
\<close>

lemma slow_first: "fst (firstWait slowTextEnv) = DeadlineExceeded"
  by (simp add: slowTextEnv_def env_defs wait_defs)

lemma late_first: "fst (firstWait lateTextEnv) = DeadlineExceeded"
  by (simp add: env_defs wait_defs)

lemma showNat_7: "showNat 7 = ''7''"
  by code_simp

lemma late_at_deadline:
  "textWorldAt lateTextEnv draftRecipe (InTagLoop 1) draftWorld
     = draftWorld\<lparr>recipes := [7 \<mapsto> populatedRow], ops := 2\<rparr>"
proof -
  have g: "generated lateTextEnv = Inr veganLunch" "faultPlan lateTextEnv = noFaults"
      "unicodeLower lateTextEnv = (\<lambda>r. r)" "NextRecipeHistoryEntry veganLunch = ''quick vegan lunch''"
      "defHashtags (RecipeDef veganLunch) = [runes ''#Spicy Chicken'', runes ''Vegan'']"
    by (simp_all add: env_defs)
  have t: "tagLoop noFaults (\<lambda>r. r) [runes ''#Spicy Chicken''] []
      (draftWorld\<lparr>recipes := [7 \<mapsto> populatedRow], ops := 1\<rparr>)
     = (Inr [\<lparr>TagID = 1, Hashtag = runes ''spicychicken''\<rparr>],
        draftWorld\<lparr>recipes := [7 \<mapsto> populatedRow], ops := 2\<rparr>)"
    by (simp add: demo_defs)
  show ?thesis
    using demo_populate demo_update t
    by (simp add: textWorldAt_def tagProgress_def g)
qed

lemma late_returned:
  "FinishGenerateRecipeWithChat lateTextEnv draftRecipe draftWorld = Returned deletedWorld"
proof -
  have p: "progressAtDeadline lateTextEnv = InTagLoop 1" "faultPlan lateTextEnv = noFaults"
    by (simp_all add: env_defs)
  have "rollback lateTextEnv draftRecipe
      ''incomplete recipe generation: timed out after 5 minutes''
      (draftWorld\<lparr>recipes := [7 \<mapsto> populatedRow], ops := 2\<rparr>) = deletedWorld"
    by (simp add: rollback_def DeleteRecipe_def Repo_DeleteRecipe_def DeleteRecipeImageFromS3_def
        GenerateS3Key_def Println_def tick_def Let_def p noFaults_def draftRecipe_def
        draftWorld_def deletedWorld_def showNat_7)
  with late_first late_at_deadline p show ?thesis
    by (simp add: FinishGenerateRecipeWithChat_def)
qed

lemma late_settled:
  "settledWorld lateTextEnv draftRecipe draftWorld deletedWorld
     = deletedWorld\<lparr>
         tags := [\<lparr>TagID = 1, Hashtag = runes ''spicychicken''\<rparr>,
                  \<lparr>TagID = 2, Hashtag = runes ''vegan''\<rparr>],
         recipeTags := [7 \<mapsto> [\<lparr>TagID = 1, Hashtag = runes ''spicychicken''\<rparr>,
                              \<lparr>TagID = 2, Hashtag = runes ''vegan''\<rparr>]],
         ops := 7\<rparr>"
proof -
  have g: "generated lateTextEnv = Inr veganLunch" "faultPlan lateTextEnv = noFaults"
      "unicodeLower lateTextEnv = (\<lambda>r. r)" "NextRecipeHistoryEntry veganLunch = ''quick vegan lunch''"
      "defHashtags (RecipeDef veganLunch) = [runes ''#Spicy Chicken'', runes ''Vegan'']"
      "progressAtDeadline lateTextEnv = InTagLoop 1"
    by (simp_all add: env_defs)
  have t1: "tagLoop noFaults (\<lambda>r. r) [runes ''#Spicy Chicken''] []
      (draftWorld\<lparr>recipes := [7 \<mapsto> populatedRow], ops := 1\<rparr>)
     = (Inr [\<lparr>TagID = 1, Hashtag = runes ''spicychicken''\<rparr>],
        draftWorld\<lparr>recipes := [7 \<mapsto> populatedRow], ops := 2\<rparr>)"
    by (simp add: demo_defs)
  have t2: "tagLoop noFaults (\<lambda>r. r) [runes ''Vegan'']
      [\<lparr>TagID = 1, Hashtag = runes ''spicychicken''\<rparr>] deletedWorld
     = (Inr [\<lparr>TagID = 1, Hashtag = runes ''spicychicken''\<rparr>,
             \<lparr>TagID = 2, Hashtag = runes ''vegan''\<rparr>],
        deletedWorld\<lparr>
          tags := [\<lparr>TagID = 1, Hashtag = runes ''spicychicken''\<rparr>,
                   \<lparr>TagID = 2, Hashtag = runes ''vegan''\<rparr>],
          ops := 6\<rparr>)"
    by (simp add: demo_defs deletedWorld_def)
  have i: "ID populatedRecipe = 7" by (simp add: populatedRecipe_def)
  have u: "UpdateRecipeTagsAssociation noFaults 7
      [\<lparr>TagID = 1, Hashtag = runes ''spicychicken''\<rparr>, \<lparr>TagID = 2, Hashtag = runes ''vegan''\<rparr>]
      (deletedWorld\<lparr>
          tags := [\<lparr>TagID = 1, Hashtag = runes ''spicychicken''\<rparr>,
                   \<lparr>TagID = 2, Hashtag = runes ''vegan''\<rparr>],
          ops := 6\<rparr>)
     = (None, deletedWorld\<lparr>
         tags := [\<lparr>TagID = 1, Hashtag = runes ''spicychicken''\<rparr>,
                  \<lparr>TagID = 2, Hashtag = runes ''vegan''\<rparr>],
         recipeTags := [7 \<mapsto> [\<lparr>TagID = 1, Hashtag = runes ''spicychicken''\<rparr>,
                              \<lparr>TagID = 2, Hashtag = runes ''vegan''\<rparr>]],
         ops := 7\<rparr>)"
    by (simp add: UpdateRecipeTagsAssociation_def noFaults_def tick_def deletedWorld_def
        draftWorld_def)
  show ?thesis
    using late_first demo_populate demo_update t1 t2 u i
    by (simp add: settledWorld_def textRemainder_def tagRemainder_def g)
qed

lemma slow_returned:
  "FinishGenerateRecipeWithChat slowTextEnv draftRecipe draftWorld
     = Returned (deletedWorld\<lparr>ops := 2\<rparr>)"
proof -
  have p: "progressAtDeadline slowTextEnv = BeforeUpdate" "faultPlan slowTextEnv = noFaults"
    by (simp_all add: slowTextEnv_def env_defs)
  have "rollback slowTextEnv draftRecipe
      ''incomplete recipe generation: timed out after 5 minutes'' draftWorld
      = deletedWorld\<lparr>ops := 2\<rparr>"
    by (simp add: rollback_def DeleteRecipe_def Repo_DeleteRecipe_def DeleteRecipeImageFromS3_def
        GenerateS3Key_def Println_def tick_def Let_def p noFaults_def draftRecipe_def
        draftWorld_def deletedWorld_def showNat_7)
  with slow_first p show ?thesis
    by (simp add: FinishGenerateRecipeWithChat_def textWorldAt_def)
qed

lemma slow_settled:
  "settledWorld slowTextEnv draftRecipe draftWorld (deletedWorld\<lparr>ops := 2\<rparr>)
     = deletedWorld\<lparr>ops := 3\<rparr>"
proof -
  have g: "generated slowTextEnv = Inr veganLunch" "faultPlan slowTextEnv = noFaults"
      "NextRecipeHistoryEntry veganLunch = ''quick vegan lunch''"
      "progressAtDeadline slowTextEnv = BeforeUpdate"
    by (simp_all add: slowTextEnv_def env_defs)
  have u: "UpdateRecipeDef noFaults populatedRecipe ''quick vegan lunch''
      (deletedWorld\<lparr>ops := 2\<rparr>) = (Some ''record not found'', deletedWorld\<lparr>ops := 3\<rparr>)"
    by (simp add: UpdateRecipeDef_def noFaults_def populatedRecipe_def deletedWorld_def
        draftWorld_def tick_def)
  show ?thesis
    using slow_first demo_populate u
    by (simp add: settledWorld_def textRemainder_def textStage_def g)
qed

section \<open>Results about tag normalisation\<close>

text \<open>
  Claim C5. Tag normalisation lowercases the input, removes every space and strips a leading
  \<open>#\<close>: for every raw tag the result of \<open>cleanHashtag\<close> is that normal form, and the three
  inputs \<open>#Spicy Chicken\<close>, \<open>spicy chicken\<close> and \<open>  SPICY   CHICKEN\<close> all give
  \<open>spicychicken\<close>.
\<close>

theorem cleanHashtag_normal_form:
  "cleanHashtag tbl raw = normalizedTag tbl raw
   \<and> cleanHashtag tbl (runes ''#Spicy Chicken'') = runes ''spicychicken''
   \<and> cleanHashtag tbl (runes ''spicy chicken'') = runes ''spicychicken''
   \<and> cleanHashtag tbl (runes ''  SPICY   CHICKEN'') = runes ''spicychicken''"
  by (simp add: cleanHashtag_ascii_examples) (simp add: cleanHashtag_unfold normalizedTag_def)

text \<open>
  Claim C10. Whatever the input, the output of \<open>cleanHashtag\<close> holds no space and no
  uppercase ASCII letter (the Unicode tables never map a rune to an ASCII capital, which is the
  hypothesis on \<open>tbl\<close>), and at most one leading \<open>#\<close> is removed: the output is the
  lowercased, space-free string itself or that string without its first \<open>#\<close>, so a string
  that starts with \<open>##\<close> after the spaces are gone keeps one \<open>#\<close>, and normalising twice
  is not normalising once (\<open>##a\<close> gives \<open>#a\<close>, which gives \<open>a\<close>).
\<close>

theorem cleanHashtag_output_shape:
  assumes "\<forall>r. 128 \<le> r \<longrightarrow> \<not> isUpperASCII (tbl r)"
  shows "space \<notin> set (cleanHashtag tbl s)
   \<and> (\<forall>r \<in> set (cleanHashtag tbl s). \<not> isUpperASCII r)
   \<and> (cleanHashtag tbl s = ReplaceAll (ToLower tbl s) space []
        \<or> hash # cleanHashtag tbl s = ReplaceAll (ToLower tbl s) space [])
   \<and> (\<forall>rest. ReplaceAll (ToLower tbl s) space [] = hash # hash # rest
        \<longrightarrow> cleanHashtag tbl s = hash # rest)
   \<and> cleanHashtag tbl (cleanHashtag tbl (runes ''##a'')) \<noteq> cleanHashtag tbl (runes ''##a'')"
proof -
  let ?t = "filter (\<lambda>r. r \<noteq> space) (map (toLowerRune tbl) s)"
  have out: "cleanHashtag tbl s = stripLeadingHash ?t"
    by (rule cleanHashtag_unfold)
  have sub: "set (cleanHashtag tbl s) \<subseteq> set ?t"
    unfolding out by (rule set_stripLeadingHash)
  have no_space: "space \<notin> set (cleanHashtag tbl s)"
    using sub by auto
  have no_upper: "\<forall>r \<in> set (cleanHashtag tbl s). \<not> isUpperASCII r"
  proof
    fix r assume "r \<in> set (cleanHashtag tbl s)"
    with sub have "r \<in> set ?t" by blast
    then obtain q where "r = toLowerRune tbl q" by auto
    then show "\<not> isUpperASCII r"
      using toLowerRune_not_upper [OF assms] by simp
  qed
  have t: "ReplaceAll (ToLower tbl s) space [] = ?t"
    by (simp add: ToLower_def ReplaceAll_delete)
  have one: "cleanHashtag tbl s = ?t \<or> hash # cleanHashtag tbl s = ?t"
    unfolding out by (cases ?t) auto
  have two: "\<forall>rest. ?t = hash # hash # rest \<longrightarrow> cleanHashtag tbl s = hash # rest"
    unfolding out by simp
  have twice: "cleanHashtag tbl (cleanHashtag tbl (runes ''##a'')) \<noteq> cleanHashtag tbl (runes ''##a'')"
    by (simp add: cleanHashtag_double_hash) (simp add: runes_def)
  show ?thesis
    unfolding t using no_space no_upper one two twice by blast
qed

theorem cleanHashtag_output_shape_witness:
  "cleanHashtag (\<lambda>r. r) (runes ''## Ab C'') = runes ''#abc''
   \<and> space \<notin> set (cleanHashtag (\<lambda>r. r) (runes ''## Ab C''))
   \<and> ReplaceAll (ToLower (\<lambda>r. r) (runes ''## Ab C'')) space [] = hash # hash # runes ''abc''"
proof -
  have h: "\<forall>r. 128 \<le> r \<longrightarrow> \<not> isUpperASCII ((\<lambda>r. r) r)"
    by (simp add: isUpperASCII_def)
  have r: "ReplaceAll (ToLower (\<lambda>r. r) (runes ''## Ab C'')) space [] = hash # hash # runes ''abc''"
    by (simp add: ReplaceAll_delete ToLower_def runes_def toLowerRune_def isUpperASCII_def
        space_def hash_def)
  from cleanHashtag_output_shape [OF h, of "runes ''## Ab C''"] r
  show ?thesis by (simp add: runes_def hash_def space_def)
qed

section \<open>Results about the generation client\<close>

text \<open>
  Claim C3. Whatever the provider answers, a client call makes at least one and at most five
  requests. As long as the answers are transient (status 429 or 500) the client sleeps two
  seconds after each and asks again: when the first \<open>k < 5\<close> answers are transient, the
  answer number \<open>k\<close> decides the call after \<open>k + 1\<close> requests and \<open>k\<close> sleeps of two
  seconds. A success there is processed and returned; status 401 there fails at once with
  the authorisation error; an unrecognised error there fails at once with a message that
  carries the cause. Five transient answers use five requests (and five sleeps). In
  particular four transient answers and then a well-formed success make exactly five
  requests and return the parsed recipe, and status 401 on the first answer makes exactly
  one request. The same holds of the image call.
\<close>

theorem generation_client_retry_policy:
  fixes call :: "nat \<Rightarrow> choice list response" and icall :: "nat \<Rightarrow> string list response"
  shows
  "1 \<le> attempts (CreateRecipeChatCompletion um call) \<and> attempts (CreateRecipeChatCompletion um call) \<le> 5
   \<and> 1 \<le> attempts (CreateImage dec icall) \<and> attempts (CreateImage dec icall) \<le> 5
   \<and> (\<forall>k<5. transientUpTo call k \<longrightarrow>
         (\<forall>resp. call k = Success resp \<longrightarrow>
            CreateRecipeChatCompletion um call =
              \<lparr>result = afterChat um resp, attempts = Suc k, sleeps = replicate k (2 * Second)\<rparr>)
       \<and> (\<forall>msg. call k = Failure (APIError 401 msg) \<longrightarrow>
            CreateRecipeChatCompletion um call =
              \<lparr>result = Error ''invalid auth or key. Do not retry'', attempts = Suc k,
               sleeps = replicate k (2 * Second)\<rparr>)
       \<and> (\<forall>e. call k = Failure e \<and> isUnrecognized e \<longrightarrow>
            CreateRecipeChatCompletion um call =
              \<lparr>result = Error (''unhandled error: '' @ errorText e), attempts = Suc k,
               sleeps = replicate k (2 * Second)\<rparr>))
   \<and> (\<forall>k<5. transientUpTo icall k \<longrightarrow>
         (\<forall>resp. icall k = Success resp \<longrightarrow>
            CreateImage dec icall =
              \<lparr>result = afterImage dec resp, attempts = Suc k, sleeps = replicate k (2 * Second)\<rparr>)
       \<and> (\<forall>msg. icall k = Failure (APIError 401 msg) \<longrightarrow>
            CreateImage dec icall =
              \<lparr>result = Error ''invalid auth or key. Do not retry'', attempts = Suc k,
               sleeps = replicate k (2 * Second)\<rparr>)
       \<and> (\<forall>e. icall k = Failure e \<and> isUnrecognized e \<longrightarrow>
            CreateImage dec icall =
              \<lparr>result = Error (''unhandled error: '' @ errorText e), attempts = Suc k,
               sleeps = replicate k (2 * Second)\<rparr>))
   \<and> (transientUpTo call 5 \<longrightarrow>
         attempts (CreateRecipeChatCompletion um call) = 5
         \<and> sleeps (CreateRecipeChatCompletion um call) = replicate 5 (2 * Second))
   \<and> (transientUpTo icall 5 \<longrightarrow>
         attempts (CreateImage dec icall) = 5
         \<and> sleeps (CreateImage dec icall) = replicate 5 (2 * Second))
   \<and> (\<forall>args recipe. transientUpTo call 4 \<and> call 4 = Success [Choice (Some args)] \<and> args \<noteq> []
          \<and> um args = Inr recipe \<longrightarrow>
         attempts (CreateRecipeChatCompletion um call) = 5
         \<and> result (CreateRecipeChatCompletion um call) = Value recipe)
   \<and> (\<forall>msg. call 0 = Failure (APIError 401 msg) \<longrightarrow>
         attempts (CreateRecipeChatCompletion um call) = 1
         \<and> result (CreateRecipeChatCompletion um call) = Error ''invalid auth or key. Do not retry'')"
proof -
  have a1: "1 \<le> attempts (CreateRecipeChatCompletion um call) \<and> attempts (CreateRecipeChatCompletion um call) \<le> 5"
    using chat_attempts [of um call] by (simp add: five)
  have a2: "1 \<le> attempts (CreateImage dec icall) \<and> attempts (CreateImage dec icall) \<le> 5"
    using image_attempts [of dec icall] by (simp add: five)
  have c: "\<forall>k<5. transientUpTo call k \<longrightarrow>
         (\<forall>resp. call k = Success resp \<longrightarrow>
            CreateRecipeChatCompletion um call =
              \<lparr>result = afterChat um resp, attempts = Suc k, sleeps = replicate k (2 * Second)\<rparr>)
       \<and> (\<forall>msg. call k = Failure (APIError 401 msg) \<longrightarrow>
            CreateRecipeChatCompletion um call =
              \<lparr>result = Error ''invalid auth or key. Do not retry'', attempts = Suc k,
               sleeps = replicate k (2 * Second)\<rparr>)
       \<and> (\<forall>e. call k = Failure e \<and> isUnrecognized e \<longrightarrow>
            CreateRecipeChatCompletion um call =
              \<lparr>result = Error (''unhandled error: '' @ errorText e), attempts = Suc k,
               sleeps = replicate k (2 * Second)\<rparr>)"
  proof (intro allI impI conjI)
    fix k resp assume "k < 5" "transientUpTo call k" "call k = Success resp"
    then show "CreateRecipeChatCompletion um call =
              \<lparr>result = afterChat um resp, attempts = Suc k, sleeps = replicate k (2 * Second)\<rparr>"
      by (intro chat_success) (simp_all add: five)
  next
    fix k msg assume "k < 5" "transientUpTo call k" "call k = Failure (APIError 401 msg)"
    then show "CreateRecipeChatCompletion um call =
              \<lparr>result = Error ''invalid auth or key. Do not retry'', attempts = Suc k,
               sleeps = replicate k (2 * Second)\<rparr>"
      using chat_noretry [of k call "APIError 401 msg" um]
      by (simp add: five handleAPIError_401)
  next
    fix k e assume "k < 5" "transientUpTo call k" "call k = Failure e \<and> isUnrecognized e"
    then show "CreateRecipeChatCompletion um call =
              \<lparr>result = Error (''unhandled error: '' @ errorText e), attempts = Suc k,
               sleeps = replicate k (2 * Second)\<rparr>"
      using chat_noretry [of k call e um]
      by (simp add: five handleAPIError_unrecognized)
  qed
  have i: "\<forall>k<5. transientUpTo icall k \<longrightarrow>
         (\<forall>resp. icall k = Success resp \<longrightarrow>
            CreateImage dec icall =
              \<lparr>result = afterImage dec resp, attempts = Suc k, sleeps = replicate k (2 * Second)\<rparr>)
       \<and> (\<forall>msg. icall k = Failure (APIError 401 msg) \<longrightarrow>
            CreateImage dec icall =
              \<lparr>result = Error ''invalid auth or key. Do not retry'', attempts = Suc k,
               sleeps = replicate k (2 * Second)\<rparr>)
       \<and> (\<forall>e. icall k = Failure e \<and> isUnrecognized e \<longrightarrow>
            CreateImage dec icall =
              \<lparr>result = Error (''unhandled error: '' @ errorText e), attempts = Suc k,
               sleeps = replicate k (2 * Second)\<rparr>)"
  proof (intro allI impI conjI)
    fix k resp assume "k < 5" "transientUpTo icall k" "icall k = Success resp"
    then show "CreateImage dec icall =
              \<lparr>result = afterImage dec resp, attempts = Suc k, sleeps = replicate k (2 * Second)\<rparr>"
      by (intro image_success) (simp_all add: five)
  next
    fix k msg assume "k < 5" "transientUpTo icall k" "icall k = Failure (APIError 401 msg)"
    then show "CreateImage dec icall =
              \<lparr>result = Error ''invalid auth or key. Do not retry'', attempts = Suc k,
               sleeps = replicate k (2 * Second)\<rparr>"
      using image_noretry [of k icall "APIError 401 msg" dec]
      by (simp add: five handleAPIError_401)
  next
    fix k e assume "k < 5" "transientUpTo icall k" "icall k = Failure e \<and> isUnrecognized e"
    then show "CreateImage dec icall =
              \<lparr>result = Error (''unhandled error: '' @ errorText e), attempts = Suc k,
               sleeps = replicate k (2 * Second)\<rparr>"
      using image_noretry [of k icall e dec]
      by (simp add: five handleAPIError_unrecognized)
  qed
  have x1: "transientUpTo call 5 \<longrightarrow>
         attempts (CreateRecipeChatCompletion um call) = 5
         \<and> sleeps (CreateRecipeChatCompletion um call) = replicate 5 (2 * Second)"
  proof
    assume t: "transientUpTo call 5"
    then have "isTransient (call 4)" by (simp add: transientUpTo_iff)
    then obtain e where "call 4 = Failure e" using isTransient_Failure by blast
    with t chat_exhausted [of call e um] show "attempts (CreateRecipeChatCompletion um call) = 5
         \<and> sleeps (CreateRecipeChatCompletion um call) = replicate 5 (2 * Second)"
      by (simp add: five)
  qed
  have x2: "transientUpTo icall 5 \<longrightarrow>
         attempts (CreateImage dec icall) = 5
         \<and> sleeps (CreateImage dec icall) = replicate 5 (2 * Second)"
  proof
    assume t: "transientUpTo icall 5"
    then have "isTransient (icall 4)" by (simp add: transientUpTo_iff)
    then obtain e where "icall 4 = Failure e" using isTransient_Failure by blast
    with t image_exhausted [of icall e dec] show "attempts (CreateImage dec icall) = 5
         \<and> sleeps (CreateImage dec icall) = replicate 5 (2 * Second)"
      by (simp add: five)
  qed
  have p1: "\<forall>args recipe. transientUpTo call 4 \<and> call 4 = Success [Choice (Some args)] \<and> args \<noteq> []
          \<and> um args = Inr recipe \<longrightarrow>
         attempts (CreateRecipeChatCompletion um call) = 5
         \<and> result (CreateRecipeChatCompletion um call) = Value recipe"
  proof (intro allI impI)
    fix args recipe
    assume h: "transientUpTo call 4 \<and> call 4 = Success [Choice (Some args)] \<and> args \<noteq> []
          \<and> um args = Inr recipe"
    then have "CreateRecipeChatCompletion um call =
       \<lparr>result = afterChat um [Choice (Some args)], attempts = Suc 4, sleeps = replicate 4 (2 * Second)\<rparr>"
      by (intro chat_success) (simp_all add: five)
    with h show "attempts (CreateRecipeChatCompletion um call) = 5
         \<and> result (CreateRecipeChatCompletion um call) = Value recipe"
      by (simp add: afterChat_def)
  qed
  have p2: "\<forall>msg. call 0 = Failure (APIError 401 msg) \<longrightarrow>
         attempts (CreateRecipeChatCompletion um call) = 1
         \<and> result (CreateRecipeChatCompletion um call) = Error ''invalid auth or key. Do not retry''"
  proof (intro allI impI)
    fix msg assume "call 0 = Failure (APIError 401 msg)"
    then show "attempts (CreateRecipeChatCompletion um call) = 1
         \<and> result (CreateRecipeChatCompletion um call) = Error ''invalid auth or key. Do not retry''"
      using chat_noretry [of 0 call "APIError 401 msg" um]
      by (simp add: five handleAPIError_401 transientUpTo_def)
  qed
  from a1 a2 c i x1 x2 p1 p2 show ?thesis by blast
qed


theorem generation_client_retry_policy_witness:
  "CreateRecipeChatCompletion (\<lambda>s. Inr s)
     (\<lambda>i. if i < 4 then Failure (APIError 429 ''busy'') else Success [Choice (Some ''{}'')])
   = \<lparr>result = Value ''{}'', attempts = 5, sleeps = replicate 4 (2 * Second)\<rparr>
   \<and> CreateImage (\<lambda>s. Inr s) (\<lambda>i. Failure (APIError 401 ''bad key''))
   = \<lparr>result = Error ''invalid auth or key. Do not retry'', attempts = 1, sleeps = []\<rparr>"
proof -
  let ?um = "\<lambda>s::string. (Inr s :: string + string)"
  let ?call = "\<lambda>i::nat. if i < 4 then Failure (APIError 429 ''busy'') else Success [Choice (Some ''{}'')]"
  let ?icall = "\<lambda>i::nat. (Failure (APIError 401 ''bad key'') :: string list response)"
  note pol = generation_client_retry_policy [of ?um ?call ?um ?icall]
  note chat = pol [THEN conjunct2, THEN conjunct2, THEN conjunct2, THEN conjunct2, THEN conjunct1,
      rule_format, of 4, THEN conjunct1, rule_format, of "[Choice (Some ''{}'')]"]
  note img = pol [THEN conjunct2, THEN conjunct2, THEN conjunct2, THEN conjunct2, THEN conjunct2,
      THEN conjunct1, rule_format, of 0, THEN conjunct2, THEN conjunct1, rule_format, of "''bad key''"]
  have t4: "transientUpTo ?call 4"
    by (simp add: transientUpTo_iff isTransient_def)
  have t0: "transientUpTo ?icall 0"
    by (simp add: transientUpTo_def)
  have c: "CreateRecipeChatCompletion ?um ?call =
     \<lparr>result = afterChat ?um [Choice (Some ''{}'')], attempts = Suc 4, sleeps = replicate 4 (2 * Second)\<rparr>"
    using chat t4 by simp
  have i: "CreateImage ?um ?icall =
     \<lparr>result = Error ''invalid auth or key. Do not retry'', attempts = Suc 0, sleeps = replicate 0 (2 * Second)\<rparr>"
    using img t0 by simp
  show ?thesis
    unfolding c i by (simp add: afterChat_def)
qed

text \<open>
  Claim C8. The failures of the client can be told apart. Take a run that exhausts the
  retries (five transient answers), a run that meets status 401 after transient answers only,
  and a run whose first success carries no choice or an empty payload (for the image call: no
  image or an empty base64 string). The first fails with the message that starts
  \<open>exhausted maximum retries\<close>, the second with the authorisation message, the third with the
  empty-response message, and the three results differ pairwise; so for the image call.
\<close>

theorem generation_client_failures_distinct:
  fixes callX callA callE :: "nat \<Rightarrow> choice list response"
    and icallX icallA icallE :: "nat \<Rightarrow> string list response"
  assumes "transientUpTo callX 5"
    and "ka < 5" "transientUpTo callA ka" "callA ka = Failure (APIError 401 msgA)"
    and "ke < 5" "transientUpTo callE ke" "callE ke = Success resp" "emptyChat resp"
    and "transientUpTo icallX 5"
    and "ja < 5" "transientUpTo icallA ja" "icallA ja = Failure (APIError 401 msgB)"
    and "je < 5" "transientUpTo icallE je" "icallE je = Success data" "emptyImage data"
  shows
   "(\<exists>cause. result (CreateRecipeChatCompletion um callX) =
        Error (''exhausted maximum retries. Exiting. ChatCompletion error: '' @ cause))
    \<and> result (CreateRecipeChatCompletion um callA) = Error ''invalid auth or key. Do not retry''
    \<and> result (CreateRecipeChatCompletion um callE) = Error ''OpenAI API returned an empty message''
    \<and> result (CreateRecipeChatCompletion um callX) \<noteq> result (CreateRecipeChatCompletion um callA)
    \<and> result (CreateRecipeChatCompletion um callX) \<noteq> result (CreateRecipeChatCompletion um callE)
    \<and> result (CreateRecipeChatCompletion um callA) \<noteq> result (CreateRecipeChatCompletion um callE)
    \<and> (\<exists>cause. result (CreateImage dec icallX) =
        Error (''exhausted maximum retries. Exiting. CreateImage error: '' @ cause))
    \<and> result (CreateImage dec icallA) = Error ''invalid auth or key. Do not retry''
    \<and> result (CreateImage dec icallE) = Error ''OpenAI API returned an empty image''
    \<and> result (CreateImage dec icallX) \<noteq> result (CreateImage dec icallA)
    \<and> result (CreateImage dec icallX) \<noteq> result (CreateImage dec icallE)
    \<and> result (CreateImage dec icallA) \<noteq> result (CreateImage dec icallE)"
proof -
  from assms(1) have "isTransient (callX 4)" by (simp add: transientUpTo_iff)
  then obtain e where e: "callX 4 = Failure e" using isTransient_Failure by blast
  have x: "result (CreateRecipeChatCompletion um callX) =
        Error (''exhausted maximum retries. Exiting. ChatCompletion error: '' @ errorText e)"
    using chat_exhausted [of callX e um] assms(1) e by (simp add: five)
  have a: "result (CreateRecipeChatCompletion um callA) = Error ''invalid auth or key. Do not retry''"
    using chat_noretry [of ka callA "APIError 401 msgA" um] assms(2-4)
    by (simp add: five handleAPIError_401)
  have m: "result (CreateRecipeChatCompletion um callE) = Error ''OpenAI API returned an empty message''"
    using chat_success [of ke callE resp um] assms(5-8)
    by (simp add: five afterChat_empty)
  from assms(9) have "isTransient (icallX 4)" by (simp add: transientUpTo_iff)
  then obtain f where f: "icallX 4 = Failure f" using isTransient_Failure by blast
  have ix: "result (CreateImage dec icallX) =
        Error (''exhausted maximum retries. Exiting. CreateImage error: '' @ errorText f)"
    using image_exhausted [of icallX f dec] assms(9) f by (simp add: five)
  have ia: "result (CreateImage dec icallA) = Error ''invalid auth or key. Do not retry''"
    using image_noretry [of ja icallA "APIError 401 msgB" dec] assms(10-12)
    by (simp add: five handleAPIError_401)
  have im: "result (CreateImage dec icallE) = Error ''OpenAI API returned an empty image''"
    using image_success [of je icallE data dec] assms(13-16)
    by (simp add: five afterImage_empty)
  show ?thesis
    unfolding x a m ix ia im by simp
qed

theorem generation_client_failures_distinct_witness:
  "result (CreateRecipeChatCompletion (\<lambda>s. Inr s) (\<lambda>i. Failure (APIError 500 ''overloaded'')))
     = Error ''exhausted maximum retries. Exiting. ChatCompletion error: overloaded''
   \<and> result (CreateRecipeChatCompletion (\<lambda>s. Inr s) (\<lambda>i. Failure (APIError 401 ''bad key'')))
     = Error ''invalid auth or key. Do not retry''
   \<and> result (CreateRecipeChatCompletion (\<lambda>s. Inr s) (\<lambda>i. Success []))
     = Error ''OpenAI API returned an empty message''
   \<and> result (CreateImage (\<lambda>s. Inr s) (\<lambda>i. Success [[]]))
     = Error ''OpenAI API returned an empty image''"
proof -
  let ?um = "\<lambda>s::string. (Inr s :: string + string)"
  let ?X = "\<lambda>i::nat. (Failure (APIError 500 ''overloaded'') :: choice list response)"
  let ?A = "\<lambda>i::nat. (Failure (APIError 401 ''bad key'') :: choice list response)"
  let ?E = "\<lambda>i::nat. (Success [] :: choice list response)"
  let ?iX = "\<lambda>i::nat. (Failure (APIError 500 ''overloaded'') :: string list response)"
  let ?iA = "\<lambda>i::nat. (Failure (APIError 401 ''bad key'') :: string list response)"
  let ?iE = "\<lambda>i::nat. (Success [[]] :: string list response)"
  have tx: "transientUpTo ?X 5" "transientUpTo ?iX 5"
    by (simp_all add: transientUpTo_iff isTransient_def)
  have t0: "transientUpTo ?A 0" "transientUpTo ?E 0" "transientUpTo ?iA 0" "transientUpTo ?iE 0"
    by (simp_all add: transientUpTo_def)
  have e: "emptyChat []" "emptyImage [[]]"
    by (simp_all add: emptyChat_def emptyImage_def)
  note d = generation_client_failures_distinct [of ?X 0 ?A "''bad key''" 0 ?E "[]" ?iX 0 ?iA "''bad key''" 0 ?iE "[[]]" ?um ?um,
      OF tx(1) _ t0(1) _ _ t0(2) _ e(1) tx(2) _ t0(3) _ _ t0(4) _ e(2)]
  have x: "result (CreateRecipeChatCompletion ?um ?X)
     = Error ''exhausted maximum retries. Exiting. ChatCompletion error: overloaded''"
    using chat_exhausted [of ?X "APIError 500 ''overloaded''" ?um] tx(1) by (simp add: five)
  from d x show ?thesis by simp
qed

section \<open>Results about the tag associator\<close>

text \<open>
  Claim C6. Take a tag table in which no two rows have the same text, and a call of
  \<open>AssociateTagsWithRecipe\<close> that reports no error. Every raw tag is resolved to a row that
  carries its normalised text: a row that was in the table before is reused (it is among the
  tags resolved), and rows are created for exactly the normalised texts that no row had; the
  table still has no two rows with the same text. The recipe's association is overwritten
  with the list of the tags resolved, whatever it was before. A second call with the same raw
  tags that reports no error leaves the tag table and the association as the first call left
  them: no duplicate row, the same association.
\<close>

theorem tag_association_replaces_and_reuses:
  assumes "distinct (map Hashtag (tags w))"
    and "AssociateTagsWithRecipe f tbl recipe raw w = (None, w1)"
    and "AssociateTagsWithRecipe f tbl recipe raw w1 = (None, w2)"
  shows "(\<exists>created resolved.
            tags w1 = tags w @ created
          \<and> set (map Hashtag created) = set (map (cleanHashtag tbl) raw) - set (map Hashtag (tags w))
          \<and> distinct (map Hashtag (tags w1))
          \<and> recipeTags w1 = (recipeTags w)(ID recipe \<mapsto> resolved)
          \<and> map Hashtag resolved = map (cleanHashtag tbl) raw
          \<and> set resolved \<subseteq> set (tags w1)
          \<and> (\<forall>t \<in> set (tags w). Hashtag t \<in> set (map (cleanHashtag tbl) raw) \<longrightarrow> t \<in> set resolved))
       \<and> tags w2 = tags w1 \<and> recipeTags w2 = recipeTags w1"
proof -
  from assms(2) obtain res wl where first: "tagLoop f tbl raw [] w = (Inr res, wl)"
      "w1 = tick (wl\<lparr>recipeTags := (recipeTags wl)(ID recipe \<mapsto> res)\<rparr>)"
    by (rule AssociateTags_ok)
  from tagLoop_ok [OF first(1) assms(1)] obtain created resolved where l:
      "tags wl = tags w @ created" "distinct (map Hashtag (tags wl))"
      "set (map Hashtag created) = set (map (cleanHashtag tbl) raw) - set (map Hashtag (tags w))"
      "res = [] @ resolved" "map Hashtag resolved = map (cleanHashtag tbl) raw"
      "set resolved \<subseteq> set (tags wl)" "recipeTags wl = recipeTags w"
    by blast
  have t1: "tags w1 = tags wl" and r1: "recipeTags w1 = (recipeTags w)(ID recipe \<mapsto> resolved)"
    using first(2) l(4,7) by simp_all
  have reuse: "\<forall>t \<in> set (tags w). Hashtag t \<in> set (map (cleanHashtag tbl) raw) \<longrightarrow> t \<in> set resolved"
  proof (intro ballI impI)
    fix t assume t: "t \<in> set (tags w)" "Hashtag t \<in> set (map (cleanHashtag tbl) raw)"
    then have "Hashtag t \<in> set (map Hashtag resolved)" using l(5) by simp
    then obtain r where r: "r \<in> set resolved" "Hashtag r = Hashtag t" by auto
    then have "r \<in> set (tags wl)" using l(6) by blast
    moreover have "t \<in> set (tags wl)" using t(1) l(1) by simp
    ultimately have "r = t"
      using l(2) r(2) by (metis find_distinct_name option.inject)
    with r(1) show "t \<in> set resolved" by simp
  qed
  from assms(3) obtain res2 wl2 where second: "tagLoop f tbl raw [] w1 = (Inr res2, wl2)"
      "w2 = tick (wl2\<lparr>recipeTags := (recipeTags wl2)(ID recipe \<mapsto> res2)\<rparr>)"
    by (rule AssociateTags_ok)
  have d1: "distinct (map Hashtag (tags w1))" using l(2) t1 by simp
  have sub: "set resolved \<subseteq> set (tags w1)" using l(6) t1 by simp
  from tagLoop_all_found [OF second(1) d1 l(5) sub]
  have s: "res2 = resolved" "tags wl2 = tags w1" by simp_all
  from tagLoop_ok [OF second(1) d1] have "recipeTags wl2 = recipeTags w1" by blast
  then have "tags w2 = tags w1" "recipeTags w2 = recipeTags w1"
    using second(2) s r1 by auto
  with l(1,3,5) d1 t1 r1 sub reuse show ?thesis by auto
qed


theorem tag_association_replaces_and_reuses_witness:
  "distinct (map Hashtag (tags draftWorld))
   \<and> AssociateTagsWithRecipe noFaults (\<lambda>r. r) draftRecipe [runes ''#Spicy Chicken'', runes ''Vegan''] draftWorld
       = (None, taggedWorld)
   \<and> AssociateTagsWithRecipe noFaults (\<lambda>r. r) draftRecipe [runes ''#Spicy Chicken'', runes ''Vegan''] taggedWorld
       = (None, taggedWorld\<lparr>ops := 7\<rparr>)
   \<and> tags (taggedWorld\<lparr>ops := 7\<rparr>) = tags taggedWorld
   \<and> recipeTags (taggedWorld\<lparr>ops := 7\<rparr>) = recipeTags taggedWorld
   \<and> length (tags taggedWorld) = 2"
proof -
  have d: "distinct (map Hashtag (tags draftWorld))"
    by (simp add: draftWorld_def)
  from tag_association_replaces_and_reuses [OF d demo_first demo_second] d demo_first demo_second
  show ?thesis by (simp add: taggedWorld_def)
qed

section \<open>Results about the orchestrator\<close>



text \<open>
  Claim C2. Take a run in which the text goroutine's success signal is received, on a draft
  that is in the store, and whose image stage fails: the deadline case is taken in the
  second wait, or the image goroutine reports an error. Then the orchestrator returns with
  the stores exactly as the text stage left them and one more line in the log: no roll-back
  and no further write. The recipe row is there with the generated title (not empty),
  ingredients, instructions and image prompt (not empty), its history is the draft's with
  the new entry appended, and its image URL is what the draft had (null for a draft).
\<close>

theorem image_failure_keeps_text:
  assumes "fst (firstWait env) = Received"
    and "textStage env recipe w = (Signal None, w1)"
    and "fst (secondWait env) = DeadlineExceeded \<or> (\<exists>err. imageGenerated env = Inl err)"
    and "recipes w (ID recipe) = Some row0"
  shows "\<exists>line mgr row.
       FinishGenerateRecipeWithChat env recipe w = Returned (Println line w1)
     \<and> generated env = Inr mgr
     \<and> recipes (Println line w1) (ID recipe) = Some row
     \<and> rowTitle row = defTitle (RecipeDef mgr) \<and> rowTitle row \<noteq> []
     \<and> Some (rowIngredients row) = defIngredients (RecipeDef mgr)
     \<and> Some (rowInstructions row) = defInstructions (RecipeDef mgr)
     \<and> rowImagePrompt row = defImagePrompt (RecipeDef mgr) \<and> rowImagePrompt row \<noteq> []
     \<and> rowHistory row = rowHistory row0 @ [NextRecipeHistoryEntry mgr]
     \<and> rowImageURL row = rowImageURL row0"
proof -
  from imageStage_no_image [OF assms(3), of recipe w1] obtain line where
    img: "imageStage env recipe w1 = Println line w1" by blast
  have fin: "FinishGenerateRecipeWithChat env recipe w = Returned (Println line w1)"
    using assms(1,2) img by (simp add: FinishGenerateRecipeWithChat_def)
  from assms(2) obtain mgr recipe1 wu where t: "generated env = Inr mgr"
      "populateRecipeCoreFields recipe mgr = (Value (), recipe1)"
      "UpdateRecipeDef (faultPlan env) recipe1 (NextRecipeHistoryEntry mgr) w = (None, wu)"
      "recipes w1 = recipes wu"
    by (rule textStage_success)
  note pv = populate_Value [OF t(2)]
  from t(3) obtain row' where u: "recipes w (ID recipe1) = Some row'"
      "wu = tick (w\<lparr>recipes := (recipes w)(ID recipe1 \<mapsto>
                  row'\<lparr>rowTitle := Title recipe1,
                      rowIngredients := elems (Ingredients recipe1),
                      rowInstructions := elems (Instructions recipe1),
                      rowCookTime := CookTime recipe1,
                      rowLinkSuggestions := elems (LinkSuggestions recipe1),
                      rowImagePrompt := ImagePrompt recipe1,
                      rowHistory := rowHistory row' @ [NextRecipeHistoryEntry mgr]\<rparr>)\<rparr>)"
    by (rule UpdateRecipeDef_ok)
  from u(1) pv(11) assms(4) have r0: "row' = row0" by simp
  let ?row = "row0\<lparr>rowTitle := Title recipe1,
                      rowIngredients := elems (Ingredients recipe1),
                      rowInstructions := elems (Instructions recipe1),
                      rowCookTime := CookTime recipe1,
                      rowLinkSuggestions := elems (LinkSuggestions recipe1),
                      rowImagePrompt := ImagePrompt recipe1,
                      rowHistory := rowHistory row0 @ [NextRecipeHistoryEntry mgr]\<rparr>"
  have row: "recipes (Println line w1) (ID recipe) = Some ?row"
    using t(4) u(2) r0 pv(11) by simp
  have ing: "Some (elems (Ingredients recipe1)) = defIngredients (RecipeDef mgr)"
    using pv(3,4) Some_elems [of "Ingredients recipe1"] by simp
  have ins: "Some (elems (Instructions recipe1)) = defInstructions (RecipeDef mgr)"
    using pv(5,6) Some_elems [of "Instructions recipe1"] by simp
  from fin t(1) row ing ins pv(1,2,7,8) show ?thesis
    by (intro exI [of _ line] exI [of _ mgr] exI [of _ ?row]) simp
qed

theorem image_failure_keeps_text_witness:
  "fst (firstWait lateImageEnv) = Received
   \<and> textStage lateImageEnv draftRecipe draftWorld = (Signal None, textDoneWorld)
   \<and> fst (secondWait lateImageEnv) = DeadlineExceeded
   \<and> recipes draftWorld (ID draftRecipe) = Some draftRow
   \<and> (\<exists>line. FinishGenerateRecipeWithChat lateImageEnv draftRecipe draftWorld
         = Returned (Println line textDoneWorld))
   \<and> recipes textDoneWorld 7 = Some populatedRow
   \<and> rowImageURL populatedRow = None"
proof -
  have w1: "fst (firstWait lateImageEnv) = Received"
    by (simp add: env_defs wait_defs)
  have t: "textStage lateImageEnv draftRecipe draftWorld = (Signal None, textDoneWorld)"
    by (rule demo_textStage) (simp_all add: env_defs)
  have w2: "fst (secondWait lateImageEnv) = DeadlineExceeded"
    by (simp add: env_defs wait_defs)
  have r: "recipes draftWorld (ID draftRecipe) = Some draftRow"
    by (simp add: draftWorld_def draftRecipe_def)
  from image_failure_keeps_text [OF w1 t disjI1 [OF w2] r]
  have "\<exists>line. FinishGenerateRecipeWithChat lateImageEnv draftRecipe draftWorld
         = Returned (Println line textDoneWorld)"
    by blast
  with w1 t w2 r show ?thesis
    by (simp add: textDoneWorld_def populatedRow_def)
qed

text \<open>
  Claim C4. Start from a store in which every row with a title has a history entry (a draft
  has no title). Then so it is wherever the text goroutine has got to, at the instant the
  first wait ends, and when the orchestrator returns: a row with a title and no history entry
  is never there. And when the text goroutine signals success, the recipe's row already has
  its title (validated not empty) and at least one history entry: they were persisted, in one
  call, before the signal.
\<close>

theorem titled_recipe_has_history:
  assumes "storeInvariant w"
  shows "storeInvariant (textWorldAt env recipe p w)
       \<and> storeInvariant (worldAtFirstWait env recipe w)
       \<and> (\<forall>w'. FinishGenerateRecipeWithChat env recipe w = Returned w' \<longrightarrow> storeInvariant w')
       \<and> (\<forall>w1. textStage env recipe w = (Signal None, w1) \<longrightarrow>
             (\<exists>row. recipes w1 (ID recipe) = Some row \<and> rowTitle row \<noteq> [] \<and> rowHistory row \<noteq> []))"
proof -
  have a: "storeInvariant (textWorldAt env recipe p w)" for p
    by (rule textWorldAt_inv [OF assms])
  have b: "storeInvariant (worldAtFirstWait env recipe w)"
    using a [of "progressAtDeadline env"] textStage_inv [OF assms, of env recipe]
    by (cases "fst (firstWait env)") (simp_all add: worldAtFirstWait_def)
  have c: "\<forall>w'. FinishGenerateRecipeWithChat env recipe w = Returned w' \<longrightarrow> storeInvariant w'"
    using Finish_inv [OF assms] by blast
  have d: "\<forall>w1. textStage env recipe w = (Signal None, w1) \<longrightarrow>
             (\<exists>row. recipes w1 (ID recipe) = Some row \<and> rowTitle row \<noteq> [] \<and> rowHistory row \<noteq> [])"
  proof (intro allI impI)
    fix w1 assume ok: "textStage env recipe w = (Signal None, w1)"
    from ok obtain mgr recipe1 wu where t: "generated env = Inr mgr"
        "populateRecipeCoreFields recipe mgr = (Value (), recipe1)"
        "UpdateRecipeDef (faultPlan env) recipe1 (NextRecipeHistoryEntry mgr) w = (None, wu)"
        "recipes w1 = recipes wu"
      by (rule textStage_success)
    note pv = populate_Value [OF t(2)]
    from t(3) obtain row' where u: "recipes w (ID recipe1) = Some row'"
        "wu = tick (w\<lparr>recipes := (recipes w)(ID recipe1 \<mapsto>
                  row'\<lparr>rowTitle := Title recipe1,
                      rowIngredients := elems (Ingredients recipe1),
                      rowInstructions := elems (Instructions recipe1),
                      rowCookTime := CookTime recipe1,
                      rowLinkSuggestions := elems (LinkSuggestions recipe1),
                      rowImagePrompt := ImagePrompt recipe1,
                      rowHistory := rowHistory row' @ [NextRecipeHistoryEntry mgr]\<rparr>)\<rparr>)"
      by (rule UpdateRecipeDef_ok)
    show "\<exists>row. recipes w1 (ID recipe) = Some row \<and> rowTitle row \<noteq> [] \<and> rowHistory row \<noteq> []"
      using t(4) u(2) pv(2,11) by simp
  qed
  from a b c d show ?thesis by blast
qed

theorem titled_recipe_has_history_witness:
  "storeInvariant draftWorld
   \<and> storeInvariant (textWorldAt lateTextEnv draftRecipe (InTagLoop 1) draftWorld)
   \<and> storeInvariant textDoneWorld
   \<and> (\<exists>row. recipes textDoneWorld (ID draftRecipe) = Some row \<and> rowTitle row \<noteq> []
         \<and> rowHistory row \<noteq> [])"
proof -
  have inv: "storeInvariant draftWorld"
    by (simp add: storeInvariant_def draftWorld_def draftRow_def titledHasHistory_def)
  have t: "textStage calmEnv draftRecipe draftWorld = (Signal None, textDoneWorld)"
    by (rule demo_textStage) (simp_all add: env_defs)
  have w: "worldAtFirstWait calmEnv draftRecipe draftWorld = textDoneWorld"
    using t by (simp add: worldAtFirstWait_def env_defs wait_defs)
  note th = titled_recipe_has_history [OF inv]
  from th [of lateTextEnv draftRecipe "InTagLoop 1"]
  have a: "storeInvariant (textWorldAt lateTextEnv draftRecipe (InTagLoop 1) draftWorld)" by simp
  from th [of calmEnv draftRecipe BeforeUpdate] w t
  have b: "storeInvariant textDoneWorld"
    and c: "\<exists>row. recipes textDoneWorld (ID draftRecipe) = Some row \<and> rowTitle row \<noteq> []
         \<and> rowHistory row \<noteq> []"
    by simp_all
  from inv a b c show ?thesis by simp
qed

text \<open>
  Claim C7. The run has one deadline, five minutes after entry, made once. Both waits end by
  it: the first wait ends between entry and the deadline, the second between the end of the
  first and the same deadline, so the image wait lasts at most the five minutes less what the
  text wait has used. A text signal ready before the deadline is received and one ready only
  after it is not; an image signal ready only after the deadline (counted from entry) is not
  received, however soon after the text signal it is ready; when both signals are ready
  before the deadline both are received.
\<close>

theorem single_deadline_governs_both_waits:
  "deadline (runContext env) = entryTime env + 5 * Minute
   \<and> entryTime env \<le> snd (firstWait env)
   \<and> snd (firstWait env) \<le> snd (secondWait env)
   \<and> snd (secondWait env) \<le> entryTime env + 5 * Minute
   \<and> snd (secondWait env) - snd (firstWait env) \<le> 5 * Minute - (snd (firstWait env) - entryTime env)
   \<and> (textReadyAt env < entryTime env + 5 * Minute \<longrightarrow> fst (firstWait env) = Received)
   \<and> (entryTime env + 5 * Minute < textReadyAt env \<longrightarrow> fst (firstWait env) = DeadlineExceeded)
   \<and> (entryTime env + 5 * Minute < imageReadyAt env \<longrightarrow> fst (secondWait env) = DeadlineExceeded)
   \<and> (textReadyAt env < entryTime env + 5 * Minute \<and> imageReadyAt env < entryTime env + 5 * Minute
        \<longrightarrow> fst (secondWait env) = Received)"
proof -
  let ?D = "entryTime env + 5 * Minute"
  have pos: "0 < 5 * Minute" by (simp add: Minute_def Second_def)
  have d: "deadline (runContext env) = ?D"
    by (simp add: runContext_def WithTimeout_def)
  have e: "entryTime env \<le> deadline (runContext env)" using d pos by simp
  have f1: "entryTime env \<le> snd (firstWait env)" "snd (firstWait env) \<le> ?D"
    using select_le [OF e, of "textReadyAt env" "tieText env"] d by (simp_all add: firstWait_def)
  have f2: "snd (firstWait env) \<le> snd (secondWait env)" "snd (secondWait env) \<le> ?D"
    using select_le [of "snd (firstWait env)" "runContext env" "imageReadyAt env" "tieImage env"] f1(2) d
    by (simp_all add: secondWait_def)
  have left: "snd (secondWait env) - snd (firstWait env) \<le> 5 * Minute - (snd (firstWait env) - entryTime env)"
    using f2(2) by simp
  have t1: "textReadyAt env < ?D \<longrightarrow> fst (firstWait env) = Received"
    using pos by (auto simp: firstWait_def select_def Let_def d)
  have t2: "?D < textReadyAt env \<longrightarrow> fst (firstWait env) = DeadlineExceeded"
    using pos by (auto simp: firstWait_def select_def Let_def d)
  have i1: "?D < imageReadyAt env \<longrightarrow> fst (secondWait env) = DeadlineExceeded"
    using f1(2) by (auto simp: secondWait_def select_def Let_def d)
  have i2: "textReadyAt env < ?D \<and> imageReadyAt env < ?D \<longrightarrow> fst (secondWait env) = Received"
  proof
    assume h: "textReadyAt env < ?D \<and> imageReadyAt env < ?D"
    then have "snd (firstWait env) < ?D"
      using pos by (auto simp: firstWait_def select_def Let_def d)
    with h show "fst (secondWait env) = Received"
      by (auto simp: secondWait_def select_def Let_def d)
  qed
  from d f1(1) f2 left t1 t2 i1 i2 show ?thesis by blast
qed

theorem single_deadline_governs_both_waits_witness:
  "textReadyAt lateImageEnv = 4 * Minute
   \<and> imageReadyAt lateImageEnv = 6 * Minute
   \<and> imageReadyAt lateImageEnv - textReadyAt lateImageEnv < 5 * Minute
   \<and> fst (firstWait lateImageEnv) = Received
   \<and> fst (secondWait lateImageEnv) = DeadlineExceeded
   \<and> snd (secondWait lateImageEnv) \<le> 5 * Minute"
proof -
  have e: "entryTime lateImageEnv = 0" "textReadyAt lateImageEnv = 4 * Minute"
      "imageReadyAt lateImageEnv = 6 * Minute"
    by (simp_all add: env_defs)
  have m: "0 < Minute" by (simp add: Minute_def Second_def)
  from single_deadline_governs_both_waits [of lateImageEnv] e m
  show ?thesis by simp
qed

text \<open>
  Claim C9. When the recipe manager has generated the recipe, the fields are populated and
  valid, \<open>UpdateRecipeDef\<close> has persisted them, and \<open>AssociateTagsWithRecipe\<close> then returns an
  error, the text goroutine logs that error and still sends \<open>nil\<close>: the first wait does not
  fail, the orchestrator goes on to the image stage, the recipe rows are as \<open>UpdateRecipeDef\<close>
  left them, and on return the recipe is in the store and the error in the log. The errors of
  the other steps of the text goroutine (generation, populating and validating,
  \<open>UpdateRecipeDef\<close>) are sent on the channel, which fails the first wait.
\<close>

theorem tag_failure_is_only_logged:
  "(generated env = Inr mgr
      \<and> populateRecipeCoreFields recipe mgr = (Value (), recipe1)
      \<and> UpdateRecipeDef (faultPlan env) recipe1 (NextRecipeHistoryEntry mgr) w = (None, w1)
      \<and> AssociateTagsWithRecipe (faultPlan env) (unicodeLower env) recipe1
            (defHashtags (RecipeDef mgr)) w1 = (Some err, w2)
      \<and> fst (firstWait env) = Received
    \<longrightarrow> textStage env recipe w = (Signal None, Println err w2)
       \<and> \<not> textFailed env recipe w
       \<and> FinishGenerateRecipeWithChat env recipe w = Returned (imageStage env recipe (Println err w2))
       \<and> recipes (Println err w2) = recipes w1
       \<and> ID recipe \<in> dom (recipes (imageStage env recipe (Println err w2)))
       \<and> err \<in> set (logs (imageStage env recipe (Println err w2))))
   \<and> (\<forall>e. generated env = Inl e \<longrightarrow> fst (textStage env recipe w) = Signal (Some e))
   \<and> (\<forall>e m r1. generated env = Inr m \<and> populateRecipeCoreFields recipe m = (Error e, r1)
         \<longrightarrow> fst (textStage env recipe w) = Signal (Some e))
   \<and> (\<forall>e m r1 wu. generated env = Inr m \<and> populateRecipeCoreFields recipe m = (Value (), r1)
         \<and> UpdateRecipeDef (faultPlan env) r1 (NextRecipeHistoryEntry m) w = (Some e, wu)
         \<longrightarrow> fst (textStage env recipe w) = Signal (Some e))"
proof -
  have main: "textStage env recipe w = (Signal None, Println err w2)
       \<and> \<not> textFailed env recipe w
       \<and> FinishGenerateRecipeWithChat env recipe w = Returned (imageStage env recipe (Println err w2))
       \<and> recipes (Println err w2) = recipes w1
       \<and> ID recipe \<in> dom (recipes (imageStage env recipe (Println err w2)))
       \<and> err \<in> set (logs (imageStage env recipe (Println err w2)))"
    if h: "generated env = Inr mgr"
      "populateRecipeCoreFields recipe mgr = (Value (), recipe1)"
      "UpdateRecipeDef (faultPlan env) recipe1 (NextRecipeHistoryEntry mgr) w = (None, w1)"
      "AssociateTagsWithRecipe (faultPlan env) (unicodeLower env) recipe1
            (defHashtags (RecipeDef mgr)) w1 = (Some err, w2)"
      "fst (firstWait env) = Received"
  proof -
    have t: "textStage env recipe w = (Signal None, Println err w2)"
      using h(1-4) by (simp add: textStage_def)
    have nf: "\<not> textFailed env recipe w"
      using t h(5) by (simp add: textFailed_def)
    have fin: "FinishGenerateRecipeWithChat env recipe w = Returned (imageStage env recipe (Println err w2))"
      using t h(5) by (simp add: FinishGenerateRecipeWithChat_def)
    have r2: "recipes w2 = recipes w1"
      using AssociateTags_frame [of "faultPlan env" "unicodeLower env" recipe1
          "defHashtags (RecipeDef mgr)" w1] h(4) by simp
    from h(3) obtain row where "recipes w (ID recipe1) = Some row"
        "w1 = tick (w\<lparr>recipes := (recipes w)(ID recipe1 \<mapsto>
                  row\<lparr>rowTitle := Title recipe1,
                      rowIngredients := elems (Ingredients recipe1),
                      rowInstructions := elems (Instructions recipe1),
                      rowCookTime := CookTime recipe1,
                      rowLinkSuggestions := elems (LinkSuggestions recipe1),
                      rowImagePrompt := ImagePrompt recipe1,
                      rowHistory := rowHistory row @ [NextRecipeHistoryEntry mgr]\<rparr>)\<rparr>)"
      by (rule UpdateRecipeDef_ok)
    then have "ID recipe \<in> dom (recipes w1)"
      using populate_Value(11) [OF h(2)] by simp
    then have d: "ID recipe \<in> dom (recipes (imageStage env recipe (Println err w2)))"
      using imageStage_keeps [of env recipe "Println err w2"] r2 by simp
    have l: "err \<in> set (logs (imageStage env recipe (Println err w2)))"
      using imageStage_keeps [of env recipe "Println err w2"] by auto
    from t nf fin r2 d l show ?thesis by simp
  qed
  have g: "\<forall>e. generated env = Inl e \<longrightarrow> fst (textStage env recipe w) = Signal (Some e)"
    by (simp add: textStage_def)
  have p: "\<forall>e m r1. generated env = Inr m \<and> populateRecipeCoreFields recipe m = (Error e, r1)
         \<longrightarrow> fst (textStage env recipe w) = Signal (Some e)"
    by (simp add: textStage_def)
  have u: "\<forall>e m r1 wu. generated env = Inr m \<and> populateRecipeCoreFields recipe m = (Value (), r1)
         \<and> UpdateRecipeDef (faultPlan env) r1 (NextRecipeHistoryEntry m) w = (Some e, wu)
         \<longrightarrow> fst (textStage env recipe w) = Signal (Some e)"
    by (simp add: textStage_def)
  from main g p u show ?thesis by blast
qed

theorem tag_failure_is_only_logged_witness:
  "generated tagFaultEnv = Inr veganLunch
   \<and> populateRecipeCoreFields draftRecipe veganLunch = (Value (), populatedRecipe)
   \<and> UpdateRecipeDef (faultPlan tagFaultEnv) populatedRecipe (NextRecipeHistoryEntry veganLunch) draftWorld
       = (None, draftWorld\<lparr>recipes := [7 \<mapsto> populatedRow], ops := 1\<rparr>)
   \<and> AssociateTagsWithRecipe (faultPlan tagFaultEnv) (unicodeLower tagFaultEnv) populatedRecipe
         (defHashtags (RecipeDef veganLunch)) (draftWorld\<lparr>recipes := [7 \<mapsto> populatedRow], ops := 1\<rparr>)
       = (Some ''database error while searching for tag: connection reset'',
          draftWorld\<lparr>recipes := [7 \<mapsto> populatedRow], ops := 2\<rparr>)
   \<and> fst (firstWait tagFaultEnv) = Received
   \<and> textStage tagFaultEnv draftRecipe draftWorld
       = (Signal None, Println ''database error while searching for tag: connection reset''
            (draftWorld\<lparr>recipes := [7 \<mapsto> populatedRow], ops := 2\<rparr>))
   \<and> \<not> textFailed tagFaultEnv draftRecipe draftWorld"
proof -
  let ?w1 = "draftWorld\<lparr>recipes := [7 \<mapsto> populatedRow], ops := 1\<rparr>"
  let ?w2 = "draftWorld\<lparr>recipes := [7 \<mapsto> populatedRow], ops := 2\<rparr>"
  let ?err = "''database error while searching for tag: connection reset''"
  have g: "generated tagFaultEnv = Inr veganLunch"
    by (simp add: env_defs)
  have u: "UpdateRecipeDef (faultPlan tagFaultEnv) populatedRecipe (NextRecipeHistoryEntry veganLunch) draftWorld
       = (None, ?w1)"
    by (simp add: UpdateRecipeDef_def env_defs populatedRecipe_def draftWorld_def draftRow_def
      populatedRow_def elems_def tick_def map_upd_same_eq)
  have a: "AssociateTagsWithRecipe (faultPlan tagFaultEnv) (unicodeLower tagFaultEnv) populatedRecipe
         (defHashtags (RecipeDef veganLunch)) ?w1 = (Some ?err, ?w2)"
    by (simp add: AssociateTagsWithRecipe_def FindTagByName_def env_defs draftWorld_def tick_def
        Let_def)
  have w: "fst (firstWait tagFaultEnv) = Received"
    by (simp add: env_defs wait_defs)
  from tag_failure_is_only_logged [of tagFaultEnv veganLunch draftRecipe populatedRecipe draftWorld
      ?w1 ?err ?w2] g demo_populate u a w
  show ?thesis by simp
qed

end
